theory Spec2Isabelle
  imports Main "HOL-Library.Sublist"
begin

section \<open>Text\<close>

text \<open>
  A Python \<open>str\<close> is modelled as a \<open>string\<close>; one \<open>char\<close> stands for one character of the
  text (code points up to 255).  The three string operations that \<open>clean_and_parse_json\<close>
  applies to the generated text are written out below.
\<close>

definition isspace :: "char \<Rightarrow> bool" where
  \<comment> \<open>\<open>str.isspace\<close> on one character: TAB, LF, VT, FF, CR, FS, GS, RS, US, SPACE, NEL, NBSP.\<close>
  "isspace c = (of_char c \<in> {9::nat, 10, 11, 12, 13, 28, 29, 30, 31, 32, 133, 160})"

definition strip :: "string \<Rightarrow> string" where
  \<comment> \<open>\<open>s.strip()\<close>: leading and trailing whitespace removed.\<close>
  "strip s = rev (dropWhile isspace (rev (dropWhile isspace s)))"

function replace :: "string \<Rightarrow> string \<Rightarrow> string \<Rightarrow> string" where
  \<comment> \<open>\<open>s.replace(old, new)\<close>: the occurrences of \<open>old\<close> are found from the left and do not overlap.\<close>
  "replace old new [] = (if old = [] then new else [])"
| "replace old new (c # cs) =
     (if old = [] then new @ c # replace old new cs
      else if prefix old (c # cs) then new @ replace old new (drop (length old) (c # cs))
      else c # replace old new cs)"
  by pat_completeness auto
termination
  by (relation "measure (\<lambda>(old, new, s). length s)") auto

definition re_search :: "string \<Rightarrow> string option" where
  \<comment> \<open>\<open>re.search(r'(\{.*\})', s, re.DOTALL)\<close> and its group 1: the match starts at the first
      opening brace that has a closing brace after it, and the greedy \<open>.*\<close> (which matches
      newlines too) carries it to the last closing brace of the text.\<close>
  "re_search s =
     (case dropWhile (\<lambda>c. c \<noteq> CHR ''{'') s of
        [] \<Rightarrow> None
      | c # cs \<Rightarrow>
          (case rev (dropWhile (\<lambda>c. c \<noteq> CHR ''}'') (rev cs)) of
             [] \<Rightarrow> None
           | r # rs \<Rightarrow> Some (c # r # rs)))"

section \<open>JSON values\<close>

text \<open>
  What \<open>json.loads\<close> returns: \<open>None\<close>, a \<open>bool\<close>, an \<open>int\<close>, a \<open>str\<close>, a \<open>list\<close> or a \<open>dict\<close>.
  A \<open>dict\<close> keeps its keys in insertion order, so it is an association list with distinct
  keys.  Python floats are not represented.
\<close>

datatype json =
    JNull
  | JBool bool
  | JInt int
  | JString string
  | JArray "json list"
  | JObject "(string \<times> json) list"

fun setitem :: "string \<Rightarrow> 'v \<Rightarrow> (string \<times> 'v) list \<Rightarrow> (string \<times> 'v) list" where
  \<comment> \<open>\<open>d[k] = v\<close>: a present key keeps its place and takes the new value, a new key goes last.\<close>
  "setitem k v [] = [(k, v)]"
| "setitem k v ((k', v') # d) = (if k' = k then (k, v) # d else (k', v') # setitem k v d)"

fun truthy :: "json option \<Rightarrow> bool" where
  \<comment> \<open>The truth value Python gives an object in \<open>if x:\<close>; the outer \<open>None\<close> is the extractor's
      failure result.\<close>
  "truthy None = False"
| "truthy (Some JNull) = False"
| "truthy (Some (JBool b)) = b"
| "truthy (Some (JInt i)) = (i \<noteq> 0)"
| "truthy (Some (JString s)) = (s \<noteq> [])"
| "truthy (Some (JArray xs)) = (xs \<noteq> [])"
| "truthy (Some (JObject d)) = (d \<noteq> [])"

section \<open>Console and log\<close>

text \<open>
  What the program prints and what it sends to the logger at level ERROR, in order.  The
  two lines that quote the text of a \<open>JSONDecodeError\<close> have constructors of their own: the
  decoder's message is not modelled.  Records of level DEBUG are left out.
\<close>

datatype exn = Exception string

fun str :: "exn \<Rightarrow> string" where
  "str (Exception m) = m"

datatype event =
    Print string
  | Log_error string
  | Log_exception string exn
  | Print_JSON_Decode_Error
  | Log_JSON_Decode_Error

section \<open>The JSON extractor\<close>

text \<open>
  \<open>json.loads\<close> belongs to the standard library, not to this program: it is the parameter
  \<open>loads\<close>.  A call of it returns a value, raises \<open>JSONDecodeError\<close>, or raises some other
  exception (a \<open>RecursionError\<close> on deep nesting, a \<open>ValueError\<close> on an over-long integer).
  The extractor catches \<open>JSONDecodeError\<close> alone, so any other exception leaves it: its
  result pairs what was printed and logged with either the exception raised (\<open>Inl\<close>) or the
  value returned (\<open>Inr\<close>).
\<close>

datatype 'a outcome = Returns 'a | JSONDecodeError | Raises exn

definition clean_content :: "string \<Rightarrow> string" where
  \<comment> \<open>The local variable \<open>clean_content\<close>, as a function of \<open>raw_content\<close>.\<close>
  "clean_content raw_content = strip (replace ''```'' [] (replace ''```json'' [] raw_content))"

definition clean_and_parse_json ::
  "(string \<Rightarrow> json outcome) \<Rightarrow> string \<Rightarrow> event list \<times> (exn + json option)" where
  "clean_and_parse_json loads raw_content =
     (let clean_content = clean_content raw_content in
      case re_search clean_content of
        None \<Rightarrow>
          ([Print ''No JSON object found in the content'',
            Log_error (''No JSON object found. Raw content: '' @ clean_content)],
           Inr None)
      | Some json_content \<Rightarrow>
          (let shown = [Print (''Extracted JSON content: '' @
                          (if length json_content > 500 then take 500 json_content @ ''...''
                           else json_content))] in
           case loads json_content of
             Returns parsed_json \<Rightarrow> (shown, Inr (Some parsed_json))
           | JSONDecodeError \<Rightarrow>
               (shown @
                [Print_JSON_Decode_Error,
                 Print (''Problematic content: '' @ take 500 json_content @ ''...''),
                 Log_JSON_Decode_Error,
                 Log_error (''Problematic content: '' @ json_content)],
                Inr None)
           | Raises e \<Rightarrow> (shown, Inl e)))"

text \<open>
  Names for what the extractor yields on its two failure paths, and for the text between
  the two replacements and \<open>strip\<close>.
\<close>

definition no_json_found :: "string \<Rightarrow> event list \<times> (exn + json option)" where
  \<comment> \<open>No span was located in the cleaned text.\<close>
  "no_json_found cleaned =
     ([Print ''No JSON object found in the content'',
       Log_error (''No JSON object found. Raw content: '' @ cleaned)],
      Inr None)"

definition shown :: "string \<Rightarrow> event list" where
  "shown json_content =
     [Print (''Extracted JSON content: '' @
        (if length json_content > 500 then take 500 json_content @ ''...'' else json_content))]"

definition malformed_json :: "string \<Rightarrow> event list \<times> (exn + json option)" where
  \<comment> \<open>A span was located and the decoder raised \<open>JSONDecodeError\<close> on it.\<close>
  "malformed_json json_content =
     (shown json_content @
      [Print_JSON_Decode_Error,
       Print (''Problematic content: '' @ take 500 json_content @ ''...''),
       Log_JSON_Decode_Error,
       Log_error (''Problematic content: '' @ json_content)],
      Inr None)"

definition unfence :: "string \<Rightarrow> string" where
  "unfence s = replace ''```'' [] (replace ''```json'' [] s)"

section \<open>A reference JSON decoder and encoder\<close>

text \<open>
  To run the extractor on concrete texts, \<open>loads\<close> and \<open>dumps\<close> are instantiated with a
  decoder and an encoder written after \<open>json.decoder\<close> and \<open>json.encoder\<close>: strict strings
  (no raw control character, the escapes \<open>\" \\ \/ \b \f \n \r \t \uXXXX\<close>), the whitespace
  \<open>SPACE TAB LF CR\<close>, integers without leading zeros, \<open>true\<close>, \<open>false\<close>, \<open>null\<close>, arrays, and objects
  whose repeated keys keep the last value.  An integer of more than 4300 digits makes
  \<open>int\<close> raise \<open>ValueError\<close> (the default of \<open>sys.set_int_max_str_digits\<close>), which is no
  \<open>JSONDecodeError\<close>.  Texts outside the modelled values are refused: a number with a
  fraction or an exponent, \<open>NaN\<close>, \<open>Infinity\<close>, and a \<open>\uXXXX\<close> escape above \<open>\u00ff\<close>.  The
  recursion of the decoder is bounded by a counter that starts at the length of the text;
  the recursion limit of the interpreter is not modelled.
\<close>

definition json_ws :: "char \<Rightarrow> bool" where
  "json_ws c = (c = CHR '' '' \<or> c = CHR 0x09 \<or> c = CHR 0x0A \<or> c = CHR 0x0D)"

definition skip_ws :: "string \<Rightarrow> string" where
  "skip_ws s = dropWhile json_ws s"

definition isdigit :: "char \<Rightarrow> bool" where
  "isdigit c = ((48::nat) \<le> of_char c \<and> of_char c \<le> (57::nat))"

definition hexval :: "char \<Rightarrow> nat option" where
  "hexval c =
     (let n = (of_char c :: nat) in
      if 48 \<le> n \<and> n \<le> 57 then Some (n - 48)
      else if 97 \<le> n \<and> n \<le> 102 then Some (n - 87)
      else if 65 \<le> n \<and> n \<le> 70 then Some (n - 55)
      else None)"

definition backslash :: "char \<Rightarrow> char option" where
  \<comment> \<open>The one-letter escapes of a JSON string.\<close>
  "backslash e =
     (if e = CHR 0x22 then Some (CHR 0x22)
      else if e = CHR 0x5C then Some (CHR 0x5C)
      else if e = CHR ''/'' then Some (CHR ''/'')
      else if e = CHR ''b'' then Some (CHR 0x08)
      else if e = CHR ''f'' then Some (CHR 0x0C)
      else if e = CHR ''n'' then Some (CHR 0x0A)
      else if e = CHR ''r'' then Some (CHR 0x0D)
      else if e = CHR ''t'' then Some (CHR 0x09)
      else None)"

definition decode_uXXXX :: "char \<Rightarrow> char \<Rightarrow> char \<Rightarrow> char \<Rightarrow> char option" where
  "decode_uXXXX h1 h2 h3 h4 =
     (case (hexval h1, hexval h2, hexval h3, hexval h4) of
        (Some a, Some b, Some c, Some d) \<Rightarrow>
          (if a = 0 \<and> b = 0 then Some (char_of (16 * c + d)) else None)
      | _ \<Rightarrow> None)"

fun scanstring :: "string \<Rightarrow> (string \<times> string) option" where
  \<comment> \<open>The text after an opening quote: the decoded string and the text after the closing
      quote.\<close>
  "scanstring [] = None"
| "scanstring (c # cs) =
     (if c = CHR 0x22 then Some ([], cs)
      else if c = CHR 0x5C then
        (case cs of
           [] \<Rightarrow> None
         | e # cs1 \<Rightarrow>
             (if e = CHR ''u'' then
                (case cs1 of
                   h1 # h2 # h3 # h4 # cs2 \<Rightarrow>
                     (case decode_uXXXX h1 h2 h3 h4 of
                        None \<Rightarrow> None
                      | Some d \<Rightarrow> map_option (apfst ((#) d)) (scanstring cs2))
                 | _ \<Rightarrow> None)
              else
                (case backslash e of
                   None \<Rightarrow> None
                 | Some d \<Rightarrow> map_option (apfst ((#) d)) (scanstring cs1))))
      else if of_char c < (32::nat) then None
      else map_option (apfst ((#) c)) (scanstring cs))"

definition int_of_digits :: "string \<Rightarrow> int" where
  "int_of_digits ds = foldl (\<lambda>a c. 10 * a + (int (of_char c) - 48)) 0 ds"

definition is_float_tail :: "string \<Rightarrow> bool" where
  \<comment> \<open>Whether a fraction or an exponent follows the integer part of a number.\<close>
  "is_float_tail s =
     (case s of
        [] \<Rightarrow> False
      | c # cs \<Rightarrow>
          if c = CHR ''.'' then (case cs of [] \<Rightarrow> False | d # _ \<Rightarrow> isdigit d)
          else if c = CHR ''e'' \<or> c = CHR ''E'' then
            (case cs of
               [] \<Rightarrow> False
             | d # ds \<Rightarrow>
                 if d = CHR ''+'' \<or> d = CHR ''-'' then (case ds of [] \<Rightarrow> False | x # _ \<Rightarrow> isdigit x)
                 else isdigit d)
          else False)"

fun string_of_nat :: "nat \<Rightarrow> string" where
  "string_of_nat n =
     (if n < 10 then [char_of (n + 48)]
      else string_of_nat (n div 10) @ [char_of (n mod 10 + 48)])"

definition too_many_digits :: "nat \<Rightarrow> exn" where
  \<comment> \<open>The \<open>ValueError\<close> of \<open>int\<close> on a text of \<open>n\<close> digits, \<open>n\<close> above 4300.\<close>
  "too_many_digits n =
     Exception (''Exceeds the limit (4300 digits) for integer string conversion: value has '' @
       string_of_nat n @ '' digits; use sys.set_int_max_str_digits() to increase the limit'')"

definition scan_number :: "string \<Rightarrow> (json \<times> string) outcome" where
  "scan_number s =
     (let neg = (s \<noteq> [] \<and> hd s = CHR ''-'');
          s1 = (if neg then tl s else s);
          ds = (if s1 \<noteq> [] \<and> hd s1 = CHR ''0'' then ''0'' else takeWhile isdigit s1);
          r = drop (length ds) s1
      in if ds = [] \<or> is_float_tail r then JSONDecodeError
         else if 4300 < length ds then Raises (too_many_digits (length ds))
         else Returns (JInt (if neg then - int_of_digits ds else int_of_digits ds), r))"

definition dict :: "(string \<times> json) list \<Rightarrow> (string \<times> json) list" where
  \<comment> \<open>\<open>dict(pairs)\<close>\<close>
  "dict pairs = foldl (\<lambda>d (k, v). setitem k v d) [] pairs"

fun scan_once :: "nat \<Rightarrow> string \<Rightarrow> (json \<times> string) outcome"
  and json_object :: "nat \<Rightarrow> (string \<times> json) list \<Rightarrow> string \<Rightarrow> (json \<times> string) outcome"
  and json_array :: "nat \<Rightarrow> json list \<Rightarrow> string \<Rightarrow> (json \<times> string) outcome" where
  "scan_once 0 s = JSONDecodeError"
| "scan_once (Suc n) s =
     (case s of
        [] \<Rightarrow> JSONDecodeError
      | c # cs \<Rightarrow>
          if c = CHR 0x22 then
            (case scanstring cs of
               None \<Rightarrow> JSONDecodeError
             | Some (x, r) \<Rightarrow> Returns (JString x, r))
          else if c = CHR ''{'' then
            (if prefix ''}'' (skip_ws cs) then Returns (JObject [], tl (skip_ws cs))
             else json_object n [] (skip_ws cs))
          else if c = CHR ''['' then
            (if prefix '']'' (skip_ws cs) then Returns (JArray [], tl (skip_ws cs))
             else json_array n [] (skip_ws cs))
          else if prefix ''null'' s then Returns (JNull, drop 4 s)
          else if prefix ''true'' s then Returns (JBool True, drop 4 s)
          else if prefix ''false'' s then Returns (JBool False, drop 5 s)
          else scan_number s)"
| "json_object 0 pairs s = JSONDecodeError"
| "json_object (Suc n) pairs s =
     \<comment> \<open>\<open>s\<close> is at a key\<close>
     (case s of
        [] \<Rightarrow> JSONDecodeError
      | c # cs \<Rightarrow>
          if c \<noteq> CHR 0x22 then JSONDecodeError
          else
            (case scanstring cs of
               None \<Rightarrow> JSONDecodeError
             | Some (key, r1) \<Rightarrow>
                 if \<not> prefix '':'' (skip_ws r1) then JSONDecodeError
                 else
                   (case scan_once n (skip_ws (tl (skip_ws r1))) of
                      JSONDecodeError \<Rightarrow> JSONDecodeError
                    | Raises e \<Rightarrow> Raises e
                    | Returns (v, r2) \<Rightarrow>
                        if prefix ''}'' (skip_ws r2)
                        then Returns (JObject (dict (pairs @ [(key, v)])), tl (skip_ws r2))
                        else if prefix '','' (skip_ws r2)
                        then json_object n (pairs @ [(key, v)]) (skip_ws (tl (skip_ws r2)))
                        else JSONDecodeError)))"
| "json_array 0 vals s = JSONDecodeError"
| "json_array (Suc n) vals s =
     \<comment> \<open>\<open>s\<close> is at an element\<close>
     (case scan_once n s of
        JSONDecodeError \<Rightarrow> JSONDecodeError
      | Raises e \<Rightarrow> Raises e
      | Returns (v, r) \<Rightarrow>
          if prefix '']'' (skip_ws r) then Returns (JArray (vals @ [v]), tl (skip_ws r))
          else if prefix '','' (skip_ws r) then json_array n (vals @ [v]) (skip_ws (tl (skip_ws r)))
          else JSONDecodeError)"

definition json_loads :: "string \<Rightarrow> json outcome" where
  \<comment> \<open>One value, with whitespace around it and nothing else after it.\<close>
  "json_loads s =
     (case scan_once (Suc (length s)) (skip_ws s) of
        JSONDecodeError \<Rightarrow> JSONDecodeError
      | Raises e \<Rightarrow> Raises e
      | Returns (v, r) \<Rightarrow> if skip_ws r = [] then Returns v else JSONDecodeError)"

definition string_of_int :: "int \<Rightarrow> string" where
  "string_of_int i = (if i < 0 then CHR ''-'' # string_of_nat (nat (- i)) else string_of_nat (nat i))"

definition hexdigit :: "nat \<Rightarrow> char" where
  "hexdigit n = (if n < 10 then char_of (48 + n) else char_of (87 + n))"

definition encode_char :: "char \<Rightarrow> string" where
  \<comment> \<open>\<open>ensure_ascii\<close>: everything outside SPACE .. TILDE is escaped.\<close>
  "encode_char c =
     (if c = CHR 0x22 then [CHR 0x5C, CHR 0x22]
      else if c = CHR 0x5C then [CHR 0x5C, CHR 0x5C]
      else if c = CHR 0x0A then [CHR 0x5C, CHR ''n'']
      else if c = CHR 0x0D then [CHR 0x5C, CHR ''r'']
      else if c = CHR 0x09 then [CHR 0x5C, CHR ''t'']
      else if c = CHR 0x0C then [CHR 0x5C, CHR ''f'']
      else if c = CHR 0x08 then [CHR 0x5C, CHR ''b'']
      else if of_char c < (32::nat) \<or> (126::nat) < of_char c
      then [CHR 0x5C, CHR ''u'', CHR ''0'', CHR ''0'',
            hexdigit (of_char c div 16), hexdigit (of_char c mod 16)]
      else [c])"

definition encode_string :: "string \<Rightarrow> string" where
  "encode_string s = CHR 0x22 # concat (map encode_char s) @ [CHR 0x22]"

fun join :: "string \<Rightarrow> string list \<Rightarrow> string" where
  "join sep [] = []"
| "join sep [x] = x"
| "join sep (x # y # ys) = x @ sep @ join sep (y # ys)"

fun json_dumps :: "json \<Rightarrow> string" where
  \<comment> \<open>\<open>json.dumps(v)\<close> with its default separators.\<close>
  "json_dumps JNull = ''null''"
| "json_dumps (JBool b) = (if b then ''true'' else ''false'')"
| "json_dumps (JInt i) = string_of_int i"
| "json_dumps (JString s) = encode_string s"
| "json_dumps (JArray xs) = ''['' @ join '', '' (map json_dumps xs) @ '']''"
| "json_dumps (JObject d) =
     ''{'' @ join '', '' (map (\<lambda>(k, v). encode_string k @ '': '' @ json_dumps v) d) @ ''}''"

section \<open>The search tool\<close>

text \<open>
  \<open>tavily_client.search\<close> is the search service's client: the parameter
  \<open>tavily_client_search\<close>, which returns a response or raises.
\<close>

record search_request =
  query :: string
  search_depth :: string
  include_answer :: bool
  max_results :: nat
  sort_by :: string

definition tavily_search :: "(search_request \<Rightarrow> exn + json) \<Rightarrow> string \<Rightarrow> event list \<times> json" where
  "tavily_search tavily_client_search q =
     (case tavily_client_search
             \<lparr>query = q, search_depth = ''advanced'', include_answer = True,
              max_results = 10, sort_by = ''relevance_and_recency''\<rparr> of
        Inr response \<Rightarrow> ([], response)
      | Inl e \<Rightarrow>
          ([Log_error (''Tavily search error: '' @ str e)],
           JObject [(''error'', JString (str e))]))"

section \<open>The pipeline\<close>

text \<open>
  The four agents are configuration; their instruction texts are left out.
\<close>

record agent =
  name :: string
  model :: string
  agent_functions :: "string list"

definition info_extractor :: agent where
  "info_extractor = \<lparr>name = ''Info Extractor'', model = ''gpt-4o'', agent_functions = [''tavily_search'']\<rparr>"

definition pain_point_analyzer :: agent where
  "pain_point_analyzer =
     \<lparr>name = ''Pain Point Analyzer'', model = ''gpt-4o'', agent_functions = [''tavily_search'']\<rparr>"

definition industry_challenges_identifier :: agent where
  "industry_challenges_identifier =
     \<lparr>name = ''Industry Challenges Identifier'', model = ''gpt-4o'',
      agent_functions = [''tavily_search'']\<rparr>"

definition solution_reporter :: agent where
  "solution_reporter =
     \<lparr>name = ''Solution Reporter'', model = ''gpt-4o'', agent_functions = [''tavily_search'']\<rparr>"

record message =
  role :: string
  content :: string

text \<open>
  The world outside the program: \<open>input prompt\<close> is what the operator types at a prompt, and
  \<open>client_run agent messages\<close> is the content of the last message of
  \<open>client.run(agent, messages)\<close>.  Either may raise instead.
\<close>

record env =
  input :: "string \<Rightarrow> exn + string"
  client_run :: "agent \<Rightarrow> message list \<Rightarrow> exn + string"

text \<open>
  The state of a run: the dictionary \<open>combined_output\<close>, the value it had after each
  assignment to one of its keys (\<open>history\<close>, starting with the empty dictionary), the calls
  made to \<open>client.run\<close>, what was printed and logged, and the content the
  run has written to \<open>combined_analysis.json\<close> (\<open>written\<close>, \<open>None\<close> as long as the run has not written
  the file).
\<close>

record state =
  combined_output :: "(string \<times> json) list"
  history :: "(string \<times> json) list list"
  calls :: "(agent \<times> message list) list"
  events :: "event list"
  written :: "(string \<times> json) list option"

definition initial :: state where
  "initial = \<lparr>combined_output = [], history = [[]], calls = [], events = [], written = None\<rparr>"

definition emit :: "event list \<Rightarrow> state \<Rightarrow> state" where
  "emit es s = s\<lparr>events := events s @ es\<rparr>"

definition assign :: "string \<Rightarrow> json \<Rightarrow> state \<Rightarrow> state" where
  \<comment> \<open>\<open>combined_output[k] = v\<close>\<close>
  "assign k v s =
     s\<lparr>combined_output := setitem k v (combined_output s),
       history := history s @ [setitem k v (combined_output s)]\<rparr>"

definition called :: "agent \<Rightarrow> message list \<Rightarrow> state \<Rightarrow> state" where
  "called a msgs s = s\<lparr>calls := calls s @ [(a, msgs)]\<rparr>"

definition dump :: "state \<Rightarrow> state" where
  \<comment> \<open>\<open>json.dump(combined_output, f, indent=2)\<close> on the freshly opened \<open>combined_analysis.json\<close>\<close>
  "dump s = s\<lparr>written := Some (combined_output s)\<rparr>"

datatype flow = Completed | Returned | Raised exn

text \<open>The conversation each stage sends to \<open>client.run\<close>; \<open>dumps\<close> is \<open>json.dumps\<close>.\<close>

definition info_messages :: "string \<Rightarrow> message list" where
  "info_messages company_url =
     [\<lparr>role = ''user'', content = ''Extract detailed info from: '' @ company_url\<rparr>]"

definition pain_messages :: "(json \<Rightarrow> string) \<Rightarrow> json \<Rightarrow> message list" where
  "pain_messages dumps company_info =
     [\<lparr>role = ''system'', content = ''Use the following company info for context:''\<rparr>,
      \<lparr>role = ''user'', content = dumps company_info\<rparr>,
      \<lparr>role = ''user'', content =
         ''Analyze pain points and desired outcomes based on this information. Use Tavily to search for additional relevant information.''\<rparr>]"

definition challenges_messages :: "(json \<Rightarrow> string) \<Rightarrow> json \<Rightarrow> json \<Rightarrow> message list" where
  "challenges_messages dumps company_info pain_points =
     [\<lparr>role = ''system'', content = ''Use the following information for context:''\<rparr>,
      \<lparr>role = ''user'', content =
         dumps (JObject [(''company_info'', company_info), (''pain_points'', pain_points)])\<rparr>,
      \<lparr>role = ''user'', content =
         ''Identify industry challenges based on this information. Use Tavily to search for additional relevant information. Ensure your response is a valid JSON object.''\<rparr>]"

definition solution_messages ::
  "(json \<Rightarrow> string) \<Rightarrow> (string \<times> json) list \<Rightarrow> string \<Rightarrow> message list" where
  "solution_messages dumps combined selling_company =
     [\<lparr>role = ''system'', content = ''Use the following information for context:''\<rparr>,
      \<lparr>role = ''user'', content = dumps (JObject combined)\<rparr>,
      \<lparr>role = ''user'', content =
         ''Recommend solutions from '' @ selling_company @
         '' based on this information. Use Tavily to search for specific solutions and case studies from '' @
         selling_company @ ''.''\<rparr>]"

definition vendor_prompt :: string where
  "vendor_prompt = ''\<newline>What company are you selling for? ''"

definition url_prompt :: string where
  "url_prompt = ''Please enter the customer's company website URL: ''"

definition placeholder :: json where
  "placeholder = JObject [(''error'', JString ''Failed to parse'')]"

text \<open>
  The body of the \<open>try\<close> block, one definition for each stage, each ending in the next.
  \<open>Returned\<close> is a \<open>return\<close> statement, \<open>Raised\<close> an exception that leaves the block: one
  raised by \<open>client.run\<close>, by the prompt or by the extractor.
\<close>

definition run_solution_reporter ::
  "(string \<Rightarrow> json outcome) \<Rightarrow> (json \<Rightarrow> string) \<Rightarrow> env \<Rightarrow> string \<Rightarrow> state \<Rightarrow> flow \<times> state" where
  "run_solution_reporter loads dumps world selling_company s =
     (let msgs = solution_messages dumps (combined_output s) selling_company;
          s1 = called solution_reporter msgs s
      in case client_run world solution_reporter msgs of
           Inl e \<Rightarrow> (Raised e, s1)
         | Inr raw_content \<Rightarrow>
             (let (out, result) = clean_and_parse_json loads raw_content;
                  s2 = emit out s1;
                  failed = (Returned,
                    emit [Print ''Failed to parse solutions. Please check the logs and try again.''] s2)
              in case result of
                   Inl e \<Rightarrow> (Raised e, s2)
                 | Inr solutions \<Rightarrow>
                     (case solutions of
                        None \<Rightarrow> failed
                      | Some v \<Rightarrow>
                          if truthy solutions
                          then (Completed,
                            emit [Print (''\<newline>Combined analysis has been saved to 'combined_analysis.json'' @ [CHR 0x27])]
                              (dump (assign ''solutions'' v s2)))
                          else failed)))"

definition ask_selling_company ::
  "(string \<Rightarrow> json outcome) \<Rightarrow> (json \<Rightarrow> string) \<Rightarrow> env \<Rightarrow> state \<Rightarrow> flow \<times> state" where
  "ask_selling_company loads dumps world s =
     (case input world vendor_prompt of
        Inl e \<Rightarrow> (Raised e, s)
      | Inr selling_company \<Rightarrow>
          run_solution_reporter loads dumps world selling_company
            (assign ''selling_company'' (JString selling_company) s))"

definition run_industry_challenges_identifier ::
  "(string \<Rightarrow> json outcome) \<Rightarrow> (json \<Rightarrow> string) \<Rightarrow> env \<Rightarrow> json \<Rightarrow> json \<Rightarrow> state \<Rightarrow> flow \<times> state" where
  "run_industry_challenges_identifier loads dumps world company_info pain_points s =
     (let msgs = challenges_messages dumps company_info pain_points;
          s1 = called industry_challenges_identifier msgs s
      in case client_run world industry_challenges_identifier msgs of
           Inl e \<Rightarrow> (Raised e, s1)
         | Inr raw_content \<Rightarrow>
             (let (out, result) = clean_and_parse_json loads raw_content;
                  s2 = emit out s1;
                  failed =
                    assign ''industry_challenges'' placeholder
                      (emit [Print ''Failed to parse industry challenges. Please check the logs and try again.'',
                             Log_error ''Failed to parse industry challenges''] s2)
              in case result of
                   Inl e \<Rightarrow> (Raised e, s2)
                 | Inr industry_challenges \<Rightarrow>
                     ask_selling_company loads dumps world
                       (case industry_challenges of
                          None \<Rightarrow> failed
                        | Some v \<Rightarrow>
                            if truthy industry_challenges then assign ''industry_challenges'' v s2
                            else failed)))"

definition run_pain_point_analyzer ::
  "(string \<Rightarrow> json outcome) \<Rightarrow> (json \<Rightarrow> string) \<Rightarrow> env \<Rightarrow> json \<Rightarrow> state \<Rightarrow> flow \<times> state" where
  "run_pain_point_analyzer loads dumps world company_info s =
     (let msgs = pain_messages dumps company_info;
          s1 = called pain_point_analyzer msgs s
      in case client_run world pain_point_analyzer msgs of
           Inl e \<Rightarrow> (Raised e, s1)
         | Inr raw_content \<Rightarrow>
             (let (out, result) = clean_and_parse_json loads raw_content;
                  s2 = emit out s1;
                  failed = (Returned,
                    emit [Print ''Failed to parse pain points. Please check the logs and try again.''] s2)
              in case result of
                   Inl e \<Rightarrow> (Raised e, s2)
                 | Inr pain_points \<Rightarrow>
                     (case pain_points of
                        None \<Rightarrow> failed
                      | Some v \<Rightarrow>
                          if truthy pain_points
                          then run_industry_challenges_identifier loads dumps world company_info v
                                 (assign ''pain_points'' v s2)
                          else failed)))"

definition run_info_extractor ::
  "(string \<Rightarrow> json outcome) \<Rightarrow> (json \<Rightarrow> string) \<Rightarrow> env \<Rightarrow> string \<Rightarrow> state \<Rightarrow> flow \<times> state" where
  "run_info_extractor loads dumps world company_url s =
     (let msgs = info_messages company_url;
          s1 = called info_extractor msgs s
      in case client_run world info_extractor msgs of
           Inl e \<Rightarrow> (Raised e, s1)
         | Inr raw_content \<Rightarrow>
             (let (out, result) = clean_and_parse_json loads raw_content;
                  s2 = emit out s1;
                  failed = (Returned,
                    emit [Print ''Failed to parse company info. Please check the logs and try again.''] s2)
              in case result of
                   Inl e \<Rightarrow> (Raised e, s2)
                 | Inr company_info \<Rightarrow>
                     (case company_info of
                        None \<Rightarrow> failed
                      | Some v \<Rightarrow>
                          if truthy company_info
                          then run_pain_point_analyzer loads dumps world v (assign ''company_info'' v s2)
                          else failed)))"

definition try_block ::
  "(string \<Rightarrow> json outcome) \<Rightarrow> (json \<Rightarrow> string) \<Rightarrow> env \<Rightarrow> string \<Rightarrow> flow \<times> state" where
  \<comment> \<open>The \<open>try\<close> block of \<open>main\<close>, entered after the welcome line and the first prompt.\<close>
  "try_block loads dumps world company_url =
     run_info_extractor loads dumps world company_url
       (emit [Print ''Welcome to the IT Solutions Sales Team!''] initial)"

definition handler :: "exn \<Rightarrow> state \<Rightarrow> state" where
  \<comment> \<open>\<open>except Exception as e\<close>\<close>
  "handler e s =
     emit [Print (''An unexpected error occurred: '' @ str e),
           Log_error (''Unexpected error: '' @ str e),
           Log_exception ''Exception details:'' e] s"

definition save :: "state \<Rightarrow> state" where
  \<comment> \<open>The statements after the \<open>try\<close> statement.\<close>
  "save s =
     emit [Print (''\<newline>Analysis has been saved to 'combined_analysis.json'' @ [CHR 0x27])] (dump s)"

text \<open>
  \<open>main\<close>: the first prompt is outside the \<open>try\<close> block, so an exception there leaves \<open>main\<close>
  (the first component of the result).  A \<open>return\<close> inside the block leaves \<open>main\<close> at once; an
  exception caught by \<open>except Exception\<close> and a completed block both go on to the statements
  after the \<open>try\<close> statement, which write the file.
\<close>

definition main ::
  "(string \<Rightarrow> json outcome) \<Rightarrow> (json \<Rightarrow> string) \<Rightarrow> env \<Rightarrow> exn option \<times> state" where
  "main loads dumps world =
     (case input world url_prompt of
        Inl e \<Rightarrow> (Some e, emit [Print ''Welcome to the IT Solutions Sales Team!''] initial)
      | Inr company_url \<Rightarrow>
          (case try_block loads dumps world company_url of
             (Returned, s) \<Rightarrow> (None, s)
           | (Completed, s) \<Rightarrow> (None, save s)
           | (Raised e, s) \<Rightarrow> (None, save (handler e s))))"

section \<open>Notions used in the statements\<close>

text \<open>
  \<open>accumulating\<close>: the dictionary started empty, its present value is the last one recorded,
  and every recorded value is an initial segment of all later ones.
\<close>

definition accumulating :: "state \<Rightarrow> bool" where
  "accumulating s \<longleftrightarrow>
     history s \<noteq> [] \<and> hd (history s) = [] \<and> last (history s) = combined_output s \<and>
     sorted_wrt prefix (history s)"

text \<open>Sample texts and sample worlds, on which the program is run below.\<close>

definition sample_object :: string where
  "sample_object = ''{\"k\": 1}''"

definition refusal :: string where
  "refusal = ''Sorry, I cannot comply.''"

definition world_challenges_fail :: env where
  "world_challenges_fail =
     \<lparr>input = (\<lambda>p. if p = url_prompt then Inr ''https://acme.example'' else Inr ''Globex''),
      client_run = (\<lambda>a m. if a = industry_challenges_identifier then Inr refusal else Inr sample_object)\<rparr>"

definition world_pain_fails :: env where
  "world_pain_fails =
     \<lparr>input = (\<lambda>p. if p = url_prompt then Inr ''https://acme.example'' else Inr ''Globex''),
      client_run = (\<lambda>a m. if a = pain_point_analyzer then Inr refusal else Inr sample_object)\<rparr>"

definition world_pain_raises :: env where
  "world_pain_raises =
     \<lparr>input = (\<lambda>p. if p = url_prompt then Inr ''https://acme.example'' else Inr ''Globex''),
      client_run = (\<lambda>a m. if a = pain_point_analyzer then Inl (Exception ''connection reset'')
                           else Inr sample_object)\<rparr>"

definition trailing_comma :: string where
  "trailing_comma = ''{\"a\": 1,}''"

definition long_integer :: string where
  \<comment> \<open>An integer of 5000 digits, then a trailing comma.\<close>
  "long_integer = ''{\"a\": '' @ replicate 5000 (CHR ''9'') @ '',}''"

definition escaped_fence :: string where
  \<comment> \<open>An object whose string value is written with three \<open>`\<close> escapes.\<close>
  "escaped_fence =
     ''{\"a\": \"'' @ [CHR 0x5C] @ ''u0060'' @ [CHR 0x5C] @ ''u0060'' @ [CHR 0x5C] @ ''u0060\"}''"

definition two_objects :: string where
  "two_objects = ''First {\"a\": 1} and then {\"b\": 2}.''"

section \<open>Properties of the text operations\<close>

lemma replace_subseq: "subseq (replace old [] s) s"
proof (induction old "[]::string" s rule: replace.induct)
  case (1 old)
  then show ?case by simp
next
  case (2 old c cs)
  show ?case
  proof (cases "old = []")
    case True
    with 2 show ?thesis by simp
  next
    case False
    show ?thesis
    proof (cases "prefix old (c # cs)")
      case True
      have "subseq (replace old [] (drop (length old) (c # cs))) (drop (length old) (c # cs))"
        using 2(2) False True by simp
      moreover have "subseq (drop (length old) (c # cs)) (c # cs)"
        by (rule suffix_imp_subseq) (rule suffix_drop)
      ultimately have "subseq (replace old [] (drop (length old) (c # cs))) (c # cs)"
        by (rule subseq_order.trans)
      with False True show ?thesis by simp
    next
      case nomatch: False
      with 2(3) False show ?thesis by simp
    qed
  qed
qed

lemma replace_Cons_other: "c \<notin> set old \<Longrightarrow> replace old [] (c # cs) = c # replace old [] cs"
  by (cases old) (auto simp: prefix_Cons)

lemma replace_append:
  assumes "old \<noteq> []" and "b = [] \<or> hd b \<notin> set old"
  shows "replace old [] (a @ b) = replace old [] a @ replace old [] b"
  using assms
proof (induction old "[]::string" a rule: replace.induct)
  case (1 old)
  then show ?case by simp
next
  case (2 old c cs)
  have pre: "prefix old (c # cs @ b) \<longleftrightarrow> prefix old (c # cs)"
  proof
    assume p: "prefix old (c # cs @ b)"
    show "prefix old (c # cs)"
    proof (cases "length old \<le> length (c # cs)")
      case True
      with p show ?thesis
        by (metis append_Cons prefix_length_prefix prefixI)
    next
      case False
      with p obtain zs where zs: "old = (c # cs) @ zs" "prefix zs b"
        using prefix_append [of old "c # cs" b] prefix_length_le [of old "c # cs"] by auto
      with False have "zs \<noteq> []" by auto
      with zs have "b \<noteq> []" "hd b = hd zs" "hd zs \<in> set old"
        by (auto simp: prefix_def)
      with 2(5) show ?thesis by simp
    qed
  next
    assume "prefix old (c # cs)"
    then show "prefix old (c # cs @ b)"
      by (metis append_Cons prefix_prefix)
  qed
  show ?case
  proof (cases "prefix old (c # cs)")
    case True
    then have len: "length old \<le> length (c # cs)" by (rule prefix_length_le)
    have "drop (length old) ((c # cs) @ b) = drop (length old) (c # cs) @ b"
      using len by (simp del: append_Cons drop_Suc_Cons)
    then have "drop (length old) (c # cs @ b) = drop (length old) (c # cs) @ b"
      by simp
    with 2 True pre show ?thesis by simp
  next
    case False
    with 2 pre show ?thesis by simp
  qed
qed


lemma replace_no_occurrence:
  assumes "old \<noteq> []" and "\<not> sublist old s"
  shows "replace old [] s = s"
  using assms
proof (induction s)
  case Nil
  then show ?case by simp
next
  case (Cons c cs)
  have "\<not> prefix old (c # cs)"
    using Cons.prems(2) by (meson prefix_imp_sublist)
  moreover have "\<not> sublist old cs"
    using Cons.prems(2) by (meson sublist_Cons_right)
  ultimately show ?case using Cons by simp
qed

lemma strip_braced:
  "strip (p @ CHR ''{'' # m @ CHR ''}'' # q) =
     dropWhile isspace p @ CHR ''{'' # m @ CHR ''}'' # rev (dropWhile isspace (rev q))"
proof -
  have a: "\<not> isspace (CHR ''{'')" and b: "\<not> isspace (CHR ''}'')"
    by (simp_all add: isspace_def)
  have "dropWhile isspace (p @ CHR ''{'' # m @ CHR ''}'' # q) = dropWhile isspace p @ CHR ''{'' # m @ CHR ''}'' # q"
    using a by (simp add: dropWhile_append3)
  moreover have "dropWhile isspace (rev (dropWhile isspace p @ CHR ''{'' # m @ CHR ''}'' # q))
      = dropWhile isspace (rev q) @ CHR ''}'' # rev m @ CHR ''{'' # rev (dropWhile isspace p)"
    using b dropWhile_append3 [of isspace "CHR ''}''" "rev q" "rev m @ CHR ''{'' # rev (dropWhile isspace p)"] by simp
  ultimately show ?thesis by (simp add: strip_def)
qed

lemma re_search_braced:
  assumes "CHR ''{'' \<notin> set p" and "CHR ''}'' \<notin> set q"
  shows "re_search (p @ CHR ''{'' # m @ CHR ''}'' # q) = Some (CHR ''{'' # m @ ''}'')"
proof -
  have "dropWhile (\<lambda>c. c \<noteq> CHR ''{'') (p @ CHR ''{'' # m @ CHR ''}'' # q) = CHR ''{'' # m @ CHR ''}'' # q"
    using assms(1) by (auto simp add: dropWhile_append3 dropWhile_eq_Nil_conv)
  moreover have "rev (dropWhile (\<lambda>c. c \<noteq> CHR ''}'') (rev (m @ CHR ''}'' # q))) = m @ ''}''"
    using assms(2) dropWhile_append3 [of "\<lambda>c. c \<noteq> CHR ''}''" "CHR ''}''" "rev q" "rev m"]
    by (auto simp add: dropWhile_eq_Nil_conv)
  ultimately show ?thesis
    by (cases m) (simp_all add: re_search_def)
qed

section \<open>The span the extractor locates\<close>

lemma clean_content_unfence: "clean_content raw = strip (unfence raw)"
  by (simp add: clean_content_def unfence_def)

lemma extractor_not_found:
  "re_search (clean_content raw) = None \<Longrightarrow>
   clean_and_parse_json loads raw = no_json_found (clean_content raw)"
  by (simp add: clean_and_parse_json_def no_json_found_def)

lemma extractor_found:
  "re_search (clean_content raw) = Some jc \<Longrightarrow>
   clean_and_parse_json loads raw =
     (case loads jc of
        Returns v \<Rightarrow> (shown jc, Inr (Some v))
      | JSONDecodeError \<Rightarrow> malformed_json jc
      | Raises e \<Rightarrow> (shown jc, Inl e))"
  by (simp add: clean_and_parse_json_def malformed_json_def shown_def Let_def split: outcome.splits)

lemma replace_braced:
  assumes "old \<noteq> []" and "CHR ''{'' \<notin> set old" and "CHR ''}'' \<notin> set old"
  shows "replace old [] (p @ CHR ''{'' # m @ CHR ''}'' # q) =
         replace old [] p @ CHR ''{'' # replace old [] m @ CHR ''}'' # replace old [] q"
proof -
  have "replace old [] (p @ CHR ''{'' # m @ CHR ''}'' # q) =
        replace old [] p @ replace old [] (CHR ''{'' # (m @ CHR ''}'' # q))"
    using assms by (simp add: replace_append)
  also have "replace old [] (CHR ''{'' # (m @ CHR ''}'' # q)) = CHR ''{'' # replace old [] (m @ CHR ''}'' # q)"
    using assms(2) by (rule replace_Cons_other)
  also have "replace old [] (m @ CHR ''}'' # q) = replace old [] m @ replace old [] (CHR ''}'' # q)"
    using assms by (simp add: replace_append)
  also have "replace old [] (CHR ''}'' # q) = CHR ''}'' # replace old [] q"
    using assms(3) by (rule replace_Cons_other)
  finally show ?thesis .
qed

lemma unfence_braced:
  "unfence (p @ CHR ''{'' # m @ CHR ''}'' # q) =
   unfence p @ CHR ''{'' # unfence m @ CHR ''}'' # unfence q"
  by (simp add: unfence_def replace_braced)

lemma replace_keeps_out: "c \<notin> set s \<Longrightarrow> c \<notin> set (replace old [] s)"
  using replace_subseq [of old s] subseq_singleton_left [of c]
  by (meson subseq_order.trans)

lemma unfence_keeps_out: "c \<notin> set s \<Longrightarrow> c \<notin> set (unfence s)"
  by (simp add: unfence_def replace_keeps_out)

lemma unfence_no_fence:
  assumes "\<not> sublist ''```'' s"
  shows "unfence s = s"
proof -
  have "\<not> sublist ''```json'' s"
  proof
    assume "sublist ''```json'' s"
    moreover have "sublist ''```'' ''```json''"
      by (rule prefix_imp_sublist) simp
    ultimately have "sublist ''```'' s" using sublist_order.order.trans by blast
    with assms show False by simp
  qed
  then show ?thesis using assms by (simp add: unfence_def replace_no_occurrence)
qed

lemma located_span:
  assumes "CHR ''{'' \<notin> set pre" and "CHR ''}'' \<notin> set post"
  shows "re_search (clean_content (pre @ CHR ''{'' # body @ CHR ''}'' # post)) =
         Some (CHR ''{'' # unfence body @ ''}'')"
proof -
  have "CHR ''{'' \<notin> set (dropWhile isspace (unfence pre))"
    using assms(1) unfence_keeps_out [of "CHR ''{''" pre] set_dropWhileD by fastforce
  moreover have "CHR ''}'' \<notin> set (rev (dropWhile isspace (rev (unfence post))))"
    using assms(2) unfence_keeps_out [of "CHR ''}''" post] set_dropWhileD [of "CHR ''}''" isspace "rev (unfence post)"] by fastforce
  ultimately show ?thesis
    by (simp add: clean_content_unfence unfence_braced strip_braced re_search_braced)
qed

lemma subseq_braces_iff:
  "subseq [CHR ''{'', CHR ''}''] s \<longleftrightarrow>
   (\<exists>cs. dropWhile (\<lambda>c. c \<noteq> CHR ''{'') s = CHR ''{'' # cs \<and> CHR ''}'' \<in> set cs)"
proof (induction s)
  case Nil
  show ?case by simp
next
  case (Cons c s)
  show ?case
  proof (cases "c = CHR ''{''")
    case True
    then show ?thesis by (simp add: subseq_singleton_left)
  next
    case False
    then have "subseq [CHR ''{'', CHR ''}''] (c # s) \<longleftrightarrow> subseq [CHR ''{'', CHR ''}''] s"
      by simp
    with False Cons show ?thesis by simp
  qed
qed

lemma re_search_None_iff: "re_search s = None \<longleftrightarrow> \<not> subseq [CHR ''{'', CHR ''}''] s"
proof (cases "dropWhile (\<lambda>c. c \<noteq> CHR ''{'') s")
  case Nil
  show ?thesis unfolding subseq_braces_iff re_search_def Nil by simp
next
  case (Cons c cs)
  then have c: "c = CHR ''{''"
    using hd_dropWhile [of "\<lambda>c. c \<noteq> CHR ''{''" s] by simp
  have u: "rev (dropWhile (\<lambda>c. c \<noteq> CHR ''}'') (rev cs)) = [] \<longleftrightarrow> CHR ''}'' \<notin> set cs"
    by (auto simp: dropWhile_eq_Nil_conv)
  have g: "(case xs of [] \<Rightarrow> None | r # rs \<Rightarrow> Some (c # r # rs)) = None \<longleftrightarrow> xs = []"
    for xs :: string
    by (cases xs) simp_all
  have "re_search s = None \<longleftrightarrow> rev (dropWhile (\<lambda>c. c \<noteq> CHR ''}'') (rev cs)) = []"
    unfolding re_search_def Cons list.case by (rule g)
  moreover have "subseq [CHR ''{'', CHR ''}''] s \<longleftrightarrow> CHR ''}'' \<in> set cs"
    unfolding subseq_braces_iff Cons c by simp
  ultimately show ?thesis using u by blast
qed

lemma subseq_pair_iff: "subseq [x, y] s \<longleftrightarrow> (\<exists>a b c. s = a @ x # b @ y # c)"
proof
  show "subseq [x, y] s \<Longrightarrow> \<exists>a b c. s = a @ x # b @ y # c"
  proof (induction s)
    case Nil
    then show ?case by simp
  next
    case (Cons z s)
    show ?case
    proof (cases "x = z")
      case True
      with Cons.prems have "y \<in> set s" by (simp add: subseq_singleton_left)
      then obtain b c where "s = b @ y # c" by (meson split_list)
      with True have "z # s = [] @ x # b @ y # c" by simp
      then show ?thesis by blast
    next
      case False
      with Cons obtain a b c where "s = a @ x # b @ y # c" by auto
      then have "z # s = (z # a) @ x # b @ y # c" by simp
      then show ?thesis by blast
    qed
  qed
next
  assume "\<exists>a b c. s = a @ x # b @ y # c"
  then obtain a b c where s: "s = a @ x # b @ y # c" by blast
  have "subseq [x, y] (x # b @ y # c)" by (simp add: subseq_singleton_left)
  then show "subseq [x, y] s" unfolding s by (rule list_emb_append2)
qed

lemma strip_subseq: "subseq (strip s) s"
proof -
  have "suffix (dropWhile isspace s) s" by (rule suffix_dropWhile)
  moreover have "prefix (rev (dropWhile isspace (rev (dropWhile isspace s)))) (dropWhile isspace s)"
    using suffix_dropWhile [of isspace "rev (dropWhile isspace s)"] by (simp add: suffix_to_prefix)
  ultimately show ?thesis
    unfolding strip_def by (meson prefix_imp_subseq suffix_imp_subseq subseq_order.trans)
qed

lemma clean_content_subseq: "subseq (clean_content raw) raw"
  unfolding clean_content_def
  by (meson strip_subseq replace_subseq subseq_order.trans)

lemma no_span_not_found:
  assumes "\<not> (\<exists>a b c. raw = a @ ''{'' @ b @ ''}'' @ c)"
  shows "re_search (clean_content raw) = None"
proof -
  have "\<not> subseq [CHR ''{'', CHR ''}''] raw"
    using assms by (simp add: subseq_pair_iff)
  then have "\<not> subseq [CHR ''{'', CHR ''}''] (clean_content raw)"
    using clean_content_subseq [of raw] by (meson subseq_order.trans)
  then show ?thesis by (simp add: re_search_None_iff)
qed

section \<open>The extractor: results\<close>

text \<open>
  C1.  The text is \<open>pre @ obj @ post\<close>: an object text \<open>obj\<close>, from its opening to its closing
  brace, that the decoder accepts with value \<open>v\<close>, between prose \<open>pre\<close> and \<open>post\<close> without
  braces (fence markers are part of the prose).  If no triple backquote occurs inside the
  object text, the extractor locates exactly \<open>obj\<close> and returns \<open>v\<close>.  The condition on the
  object text is needed: the two replacements run over the whole input, so a fence marker
  inside a string of the object is deleted as well, and the value returned is then not the
  one the object denotes.
\<close>
theorem extractor_returns_object:
  assumes "CHR ''{'' \<notin> set pre" and "CHR ''}'' \<notin> set pre"
      and "CHR ''{'' \<notin> set post" and "CHR ''}'' \<notin> set post"
      and "obj = ''{'' @ body @ ''}''"
      and "\<not> sublist ''```'' obj"
      and "loads obj = Returns v"
  shows "clean_and_parse_json loads (pre @ obj @ post) = (shown obj, Inr (Some v))"
proof -
  have "\<not> sublist ''```'' body"
    using assms(5,6) by (metis sublist_appendI sublist_order.order.trans)
  then have "unfence body = body" by (rule unfence_no_fence)
  then have "re_search (clean_content (pre @ obj @ post)) = Some obj"
    using located_span [of pre post body] assms(1,4,5) by simp
  then show ?thesis using assms(7) by (simp add: extractor_found)
qed

theorem extractor_returns_object_witness:
  "clean_and_parse_json json_loads ''Here is the data:\<newline>```json\<newline>{\"a\": 1}\<newline>```\<newline>Thanks'' =
     ([Print ''Extracted JSON content: {\"a\": 1}''], Inr (Some (JObject [(''a'', JInt 1)])))"
proof -
  have "json_loads ''{\"a\": 1}'' = Returns (JObject [(''a'', JInt 1)])" by code_simp
  moreover have "\<not> sublist ''```'' ''{\"a\": 1}''" by code_simp
  ultimately show ?thesis
    using extractor_returns_object [of "''Here is the data:\<newline>```json\<newline>''" "''\<newline>```\<newline>Thanks''" "''{\"a\": 1}''" "''\"a\": 1''" json_loads "JObject [(''a'', JInt 1)]"]
    by (simp add: shown_def)
qed

theorem fence_in_object_counterexample:
  "json_loads ''{\"a\": \"```\"}'' = Returns (JObject [(''a'', JString ''```'')]) \<and>
   snd (clean_and_parse_json json_loads ''{\"a\": \"```\"}'') = Inr (Some (JObject [(''a'', JString [])])) \<and>
   snd (clean_and_parse_json json_loads ''{\"a\": \"```\"}'') \<noteq>
     Inr (Some (JObject [(''a'', JString ''```'')]))"
  by code_simp

lemma trailing_comma_located: "re_search (clean_content trailing_comma) = Some trailing_comma"
  by code_simp

lemma trailing_comma_refused: "json_loads trailing_comma = JSONDecodeError"
  by code_simp

lemma refusal_not_located: "re_search (clean_content refusal) = None"
  by code_simp

text \<open>
  C5.  Both kinds of failure return the same value \<open>None\<close>: no span located, or a span
  located that the decoder refuses with \<open>JSONDecodeError\<close>.  What tells them apart is only
  what is printed and logged: the line \<open>No JSON object found in the content\<close> in the first
  case, the \<open>JSON Decode Error\<close> line in the second.  So the caller cannot tell the two from
  the result.
\<close>
theorem failure_kinds_same_value:
  "(re_search (clean_content raw) = None \<longrightarrow>
      snd (clean_and_parse_json loads raw) = Inr None \<and>
      Print ''No JSON object found in the content'' \<in> set (fst (clean_and_parse_json loads raw)) \<and>
      Print_JSON_Decode_Error \<notin> set (fst (clean_and_parse_json loads raw))) \<and>
   (\<forall>span. re_search (clean_content raw) = Some span \<and> loads span = JSONDecodeError \<longrightarrow>
      snd (clean_and_parse_json loads raw) = Inr None \<and>
      Print_JSON_Decode_Error \<in> set (fst (clean_and_parse_json loads raw)) \<and>
      Print ''No JSON object found in the content'' \<notin> set (fst (clean_and_parse_json loads raw)))"
  by (simp add: extractor_not_found extractor_found no_json_found_def malformed_json_def shown_def)

theorem failure_kinds_same_value_witness:
  "snd (clean_and_parse_json json_loads refusal) = Inr None \<and>
   Print ''No JSON object found in the content'' \<in> set (fst (clean_and_parse_json json_loads refusal)) \<and>
   snd (clean_and_parse_json json_loads trailing_comma) = Inr None \<and>
   Print_JSON_Decode_Error \<in> set (fst (clean_and_parse_json json_loads trailing_comma))"
  using failure_kinds_same_value [of refusal json_loads, THEN conjunct1, rule_format, OF refusal_not_located]
    failure_kinds_same_value [of trailing_comma json_loads, THEN conjunct2, rule_format,
      of trailing_comma] trailing_comma_located trailing_comma_refused
  by (simp only: simp_thms)

theorem failure_kinds_counterexample:
  "re_search (clean_content refusal) = None \<and>
   re_search (clean_content trailing_comma) = Some trailing_comma \<and>
   json_loads trailing_comma = JSONDecodeError \<and>
   snd (clean_and_parse_json json_loads refusal) = snd (clean_and_parse_json json_loads trailing_comma)"
  by code_simp

lemma no_backquote_unfence: "CHR 0x60 \<notin> set s \<Longrightarrow> unfence s = s"
proof (rule unfence_no_fence)
  assume "CHR 0x60 \<notin> set s"
  moreover have "CHR 0x60 \<in> set ''```''" by simp
  ultimately show "\<not> sublist ''```'' s"
    using set_mono_sublist [of "''```''" s] by blast
qed

lemma long_integer_located: "re_search (clean_content long_integer) = Some long_integer"
proof -
  have "unfence (''\"a\": '' @ replicate 5000 (CHR ''9'') @ '','') =
        ''\"a\": '' @ replicate 5000 (CHR ''9'') @ '',''"
    by (rule no_backquote_unfence) simp
  then show ?thesis
    using located_span [of "[]" "[]" "''\"a\": '' @ replicate 5000 (CHR ''9'') @ '',''"]
    by (simp add: long_integer_def)
qed

lemma scan_number_long:
  assumes "4300 < k"
  shows "scan_number (replicate k (CHR ''9'') @ '',}'') = Raises (too_many_digits k)"
proof -
  let ?s = "replicate k (CHR ''9'') @ '',}''"
  from assms obtain j where k: "k = Suc j" by (cases k) simp_all
  have hd: "?s \<noteq> []" "hd ?s = CHR ''9''"
    by (simp_all add: k)
  have "takeWhile isdigit ?s = replicate k (CHR ''9'') @ takeWhile isdigit '',}''"
    by (rule takeWhile_append2) (simp add: isdigit_def)
  then have ds: "takeWhile isdigit ?s = replicate k (CHR ''9'')"
    by (simp add: isdigit_def)
  have tail: "drop k ?s = '',}''" by simp
  show ?thesis
    unfolding scan_number_def Let_def using assms hd
    by (simp add: ds tail is_float_tail_def del: replicate_Suc)
qed

lemma json_loads_long:
  assumes "4300 < k"
  shows "json_loads (''{\"a\": '' @ replicate k (CHR ''9'') @ '',}'') = Raises (too_many_digits k)"
proof -
  let ?digits = "replicate k (CHR ''9'') @ '',}''"
  from assms obtain j where k: "k = Suc j" by (cases k) simp_all
  have first: "?digits = CHR ''9'' # replicate j (CHR ''9'') @ '',}''"
    by (simp add: k)
  have num: "scan_once (Suc n) ?digits = Raises (too_many_digits k)" for n
    unfolding scan_once.simps first
    by (simp add: scan_number_long [OF assms, unfolded first])
  have deep: "scan_once (Suc (Suc (Suc n))) (''{\"a\": '' @ ?digits) = Raises (too_many_digits k)"
    for n
    using num [of n] by (simp add: skip_ws_def json_ws_def first)
  have fuel: "Suc (length (''{\"a\": '' @ ?digits)) = Suc (Suc (Suc (k + 6)))"
    by simp
  have here: "skip_ws (''{\"a\": '' @ ?digits) = ''{\"a\": '' @ ?digits"
    by (simp add: skip_ws_def json_ws_def)
  show ?thesis
    unfolding json_loads_def here fuel by (simp only: deep outcome.case)
qed

lemma long_integer_raises: "json_loads long_integer = Raises (too_many_digits 5000)"
  unfolding long_integer_def by (rule json_loads_long) simp

lemma too_many_digits_5000:
  "too_many_digits 5000 =
     Exception ''Exceeds the limit (4300 digits) for integer string conversion: value has 5000 digits; use sys.set_int_max_str_digits() to increase the limit''"
  by code_simp

text \<open>
  C6.  A text in which no opening brace is followed, anywhere later, by a closing brace
  holds no \<open>{...}\<close> span; on it the extractor returns \<open>None\<close> after the no-JSON-found
  messages, and does not raise.  When a span is located and the decoder raises
  \<open>JSONDecodeError\<close> on it, the extractor returns \<open>None\<close> after the malformed-JSON messages, and
  does not raise.  The kind of failure is in the messages only; the value is \<open>None\<close> both
  times.  When the decoder raises any other exception on the span, the extractor does
  raise: that exception leaves it, after the line that shows the span.  So a located span
  that is not valid JSON need not give the malformed-JSON result: on a span with an integer
  of 5000 digits the decoder raises \<open>ValueError\<close>, which \<open>except json.JSONDecodeError\<close> does not
  catch.
\<close>
theorem extractor_failures:
  "(\<not> (\<exists>a b c. raw = a @ ''{'' @ b @ ''}'' @ c) \<longrightarrow>
      clean_and_parse_json loads raw = no_json_found (clean_content raw) \<and>
      snd (clean_and_parse_json loads raw) = Inr None) \<and>
   (\<forall>span. re_search (clean_content raw) = Some span \<and> loads span = JSONDecodeError \<longrightarrow>
      clean_and_parse_json loads raw = malformed_json span \<and>
      snd (clean_and_parse_json loads raw) = Inr None) \<and>
   (\<forall>span e. re_search (clean_content raw) = Some span \<and> loads span = Raises e \<longrightarrow>
      clean_and_parse_json loads raw = (shown span, Inl e))"
proof -
  have "clean_and_parse_json loads raw = no_json_found (clean_content raw)"
    if "\<not> (\<exists>a b c. raw = a @ ''{'' @ b @ ''}'' @ c)"
    using that by (intro extractor_not_found no_span_not_found)
  then show ?thesis by (simp add: extractor_found no_json_found_def malformed_json_def)
qed

theorem extractor_failures_witness:
  "clean_and_parse_json json_loads ''Sorry, I cannot comply.'' =
     ([Print ''No JSON object found in the content'',
       Log_error ''No JSON object found. Raw content: Sorry, I cannot comply.''], Inr None) \<and>
   clean_and_parse_json json_loads trailing_comma = malformed_json trailing_comma \<and>
   snd (clean_and_parse_json json_loads trailing_comma) = Inr None \<and>
   clean_and_parse_json json_loads long_integer =
     (shown long_integer, Inl (too_many_digits 5000))"
proof -
  have n: "\<not> (\<exists>a b c. ''Sorry, I cannot comply.'' = a @ ''{'' @ b @ ''}'' @ c)"
    unfolding append_Cons append_Nil subseq_pair_iff [symmetric] by code_simp
  have c: "clean_content ''Sorry, I cannot comply.'' = ''Sorry, I cannot comply.''" by code_simp
  have "clean_and_parse_json json_loads ''Sorry, I cannot comply.'' =
     no_json_found (clean_content ''Sorry, I cannot comply.'')"
    using extractor_failures [of "''Sorry, I cannot comply.''" json_loads,
        THEN conjunct1, rule_format, OF n] by (rule conjunct1)
  moreover have "clean_and_parse_json json_loads trailing_comma = malformed_json trailing_comma \<and>
      snd (clean_and_parse_json json_loads trailing_comma) = Inr None"
    by (rule extractor_failures [of trailing_comma json_loads,
          THEN conjunct2, THEN conjunct1, rule_format,
          OF conjI [OF trailing_comma_located trailing_comma_refused]])
  moreover have "clean_and_parse_json json_loads long_integer =
      (shown long_integer, Inl (too_many_digits 5000))"
    by (rule extractor_failures [of long_integer json_loads,
          THEN conjunct2, THEN conjunct2, rule_format,
          OF conjI [OF long_integer_located long_integer_raises]])
  ultimately show ?thesis by (simp add: c no_json_found_def malformed_json_def)
qed

theorem extractor_raises_counterexample:
  "re_search (clean_content long_integer) = Some long_integer \<and>
   json_loads long_integer =
     Raises (Exception ''Exceeds the limit (4300 digits) for integer string conversion: value has 5000 digits; use sys.set_int_max_str_digits() to increase the limit'') \<and>
   snd (clean_and_parse_json json_loads long_integer) =
     Inl (Exception ''Exceeds the limit (4300 digits) for integer string conversion: value has 5000 digits; use sys.set_int_max_str_digits() to increase the limit'') \<and>
   clean_and_parse_json json_loads long_integer \<noteq> malformed_json long_integer"
  by (simp add: long_integer_located long_integer_raises extractor_found malformed_json_def
        too_many_digits_5000)

text \<open>
  C7.  Let the extractor succeed with \<open>v\<close>, and let the serialization \<open>dumps v\<close> be an object
  text that the decoder maps back to \<open>v\<close>.  If no triple backquote occurs in \<open>dumps v\<close>, the
  extractor run on \<open>dumps v\<close> yields \<open>v\<close> again.  Without that condition it need not: a
  backquote written as the escape \<open>\u0060\<close> passes the replacements, is decoded into the
  value, is serialized as a plain backquote, and is then deleted on the second run.
\<close>
theorem reextraction_stable:
  assumes "snd (clean_and_parse_json loads raw) = Inr (Some v)"
      and "dumps v = ''{'' @ body @ ''}''"
      and "\<not> sublist ''```'' (dumps v)"
      and "loads (dumps v) = Returns v"
  shows "snd (clean_and_parse_json loads (dumps v)) = Inr (Some v)"
proof -
  have "\<not> sublist ''```'' body"
    using assms(2,3) by (metis sublist_appendI sublist_order.order.trans)
  then have "unfence body = body" by (rule unfence_no_fence)
  then have "re_search (clean_content (dumps v)) = Some (dumps v)"
    using located_span [of "[]" "[]" body] assms(2) by simp
  then show ?thesis using assms(4) by (simp add: extractor_found)
qed

theorem reextraction_stable_witness:
  "snd (clean_and_parse_json json_loads ''Result:\<newline>```json\<newline>{\"a\": [1, \"x\"], \"b\": {}}\<newline>```'') =
     Inr (Some (JObject [(''a'', JArray [JInt 1, JString ''x'']), (''b'', JObject [])])) \<and>
   json_dumps (JObject [(''a'', JArray [JInt 1, JString ''x'']), (''b'', JObject [])]) =
     ''{\"a\": [1, \"x\"], \"b\": {}}'' \<and>
   snd (clean_and_parse_json json_loads
          (json_dumps (JObject [(''a'', JArray [JInt 1, JString ''x'']), (''b'', JObject [])]))) =
     Inr (Some (JObject [(''a'', JArray [JInt 1, JString ''x'']), (''b'', JObject [])]))"
proof -
  let ?v = "JObject [(''a'', JArray [JInt 1, JString ''x'']), (''b'', JObject [])]"
  have a: "snd (clean_and_parse_json json_loads ''Result:\<newline>```json\<newline>{\"a\": [1, \"x\"], \"b\": {}}\<newline>```'') = Inr (Some ?v)"
    by code_simp
  have d: "json_dumps ?v = ''{\"a\": [1, \"x\"], \"b\": {}}''" by code_simp
  have b: "json_dumps ?v = ''{'' @ ''\"a\": [1, \"x\"], \"b\": {}'' @ ''}''" unfolding d by simp
  have n: "\<not> sublist ''```'' (json_dumps ?v)" unfolding d by code_simp
  have l: "json_loads (json_dumps ?v) = Returns ?v" unfolding d by code_simp
  from reextraction_stable
      [where loads = json_loads and dumps = json_dumps and v = ?v
         and body = "''\"a\": [1, \"x\"], \"b\": {}''", OF a b n l] a d
  show ?thesis by (simp only: simp_thms)
qed

theorem reextraction_counterexample:
  "snd (clean_and_parse_json json_loads escaped_fence) = Inr (Some (JObject [(''a'', JString ''```'')])) \<and>
   json_dumps (JObject [(''a'', JString ''```'')]) = ''{\"a\": \"```\"}'' \<and>
   snd (clean_and_parse_json json_loads (json_dumps (JObject [(''a'', JString ''```'')]))) =
     Inr (Some (JObject [(''a'', JString [])])) \<and>
   snd (clean_and_parse_json json_loads (json_dumps (JObject [(''a'', JString ''```'')]))) \<noteq>
     Inr (Some (JObject [(''a'', JString ''```'')]))"
  by code_simp

section \<open>The search tool: result\<close>

text \<open>
  C9.  When the search client raises \<open>e\<close>, \<open>tavily_search\<close> logs it and returns the mapping
  \<open>{"error": str(e)}\<close>; when the client returns a response, that response is returned.  The
  result is a value in both cases: no exception leaves \<open>tavily_search\<close>.
\<close>
theorem tavily_search_error_value:
  "(\<forall>e. tavily_client_search
           \<lparr>query = q, search_depth = ''advanced'', include_answer = True,
            max_results = 10, sort_by = ''relevance_and_recency''\<rparr> = Inl e \<longrightarrow>
      tavily_search tavily_client_search q =
        ([Log_error (''Tavily search error: '' @ str e)], JObject [(''error'', JString (str e))])) \<and>
   (\<forall>response. tavily_client_search
           \<lparr>query = q, search_depth = ''advanced'', include_answer = True,
            max_results = 10, sort_by = ''relevance_and_recency''\<rparr> = Inr response \<longrightarrow>
      tavily_search tavily_client_search q = ([], response))"
  by (simp add: tavily_search_def)

theorem tavily_search_error_value_witness:
  "tavily_search (\<lambda>r. Inl (Exception ''429 Too Many Requests'')) ''acme it infrastructure'' =
     ([Log_error ''Tavily search error: 429 Too Many Requests''],
      JObject [(''error'', JString ''429 Too Many Requests'')])"
  using tavily_search_error_value
    [of "\<lambda>r. Inl (Exception ''429 Too Many Requests'')" "''acme it infrastructure''"]
  by simp

section \<open>The pipeline, stage by stage\<close>

lemma emit_fields [simp]:
  "combined_output (emit es s) = combined_output s"
  "history (emit es s) = history s"
  "calls (emit es s) = calls s"
  "events (emit es s) = events s @ es"
  "written (emit es s) = written s"
  by (simp_all add: emit_def)

lemma called_fields [simp]:
  "combined_output (called a m s) = combined_output s"
  "history (called a m s) = history s"
  "calls (called a m s) = calls s @ [(a, m)]"
  "events (called a m s) = events s"
  "written (called a m s) = written s"
  by (simp_all add: called_def)

lemma assign_fields [simp]:
  "combined_output (assign k v s) = setitem k v (combined_output s)"
  "history (assign k v s) = history s @ [setitem k v (combined_output s)]"
  "calls (assign k v s) = calls s"
  "events (assign k v s) = events s"
  "written (assign k v s) = written s"
  by (simp_all add: assign_def)

lemma dump_fields [simp]:
  "combined_output (dump s) = combined_output s"
  "history (dump s) = history s"
  "calls (dump s) = calls s"
  "events (dump s) = events s"
  "written (dump s) = Some (combined_output s)"
  by (simp_all add: dump_def)

lemma save_fields [simp]:
  "combined_output (save s) = combined_output s"
  "history (save s) = history s"
  "calls (save s) = calls s"
  "written (save s) = Some (combined_output s)"
  by (simp_all add: save_def)

lemma handler_fields [simp]:
  "combined_output (handler e s) = combined_output s"
  "history (handler e s) = history s"
  "calls (handler e s) = calls s"
  "written (handler e s) = written s"
  "events (handler e s) =
     events s @ [Print (''An unexpected error occurred: '' @ str e),
                 Log_error (''Unexpected error: '' @ str e),
                 Log_exception ''Exception details:'' e]"
  by (simp_all add: handler_def)

lemma initial_fields [simp]:
  "combined_output initial = []" "history initial = [[]]" "calls initial = []"
  "events initial = []" "written initial = None"
  by (simp_all add: initial_def)

lemma truthy_Some: "truthy r \<Longrightarrow> \<exists>v. r = Some v"
  by (cases r) simp_all

text \<open>Each stage, by the outcome of its call and of the extraction.\<close>

lemma solution_reporter_raises:
  "client_run world solution_reporter (solution_messages dumps (combined_output s) sc) = Inl e \<Longrightarrow>
   run_solution_reporter loads dumps world sc s =
     (Raised e, called solution_reporter (solution_messages dumps (combined_output s) sc) s)"
  by (simp add: run_solution_reporter_def)

lemma solution_reporter_fails:
  "client_run world solution_reporter (solution_messages dumps (combined_output s) sc) = Inr raw \<Longrightarrow>
   snd (clean_and_parse_json loads raw) = Inr r \<Longrightarrow> \<not> truthy r \<Longrightarrow>
   run_solution_reporter loads dumps world sc s =
     (Returned,
      emit [Print ''Failed to parse solutions. Please check the logs and try again.'']
        (emit (fst (clean_and_parse_json loads raw))
           (called solution_reporter (solution_messages dumps (combined_output s) sc) s)))"
  by (auto simp: run_solution_reporter_def Let_def split: prod.splits option.splits sum.splits)

lemma solution_reporter_succeeds:
  "client_run world solution_reporter (solution_messages dumps (combined_output s) sc) = Inr raw \<Longrightarrow>
   snd (clean_and_parse_json loads raw) = Inr (Some v) \<Longrightarrow> truthy (Some v) \<Longrightarrow>
   run_solution_reporter loads dumps world sc s =
     (Completed,
      emit [Print (''\<newline>Combined analysis has been saved to 'combined_analysis.json'' @ [CHR 0x27])]
        (dump (assign ''solutions'' v
           (emit (fst (clean_and_parse_json loads raw))
              (called solution_reporter (solution_messages dumps (combined_output s) sc) s)))))"
  by (auto simp: run_solution_reporter_def Let_def split: prod.splits option.splits sum.splits)

lemma ask_selling_company_raises:
  "input world vendor_prompt = Inl e \<Longrightarrow> ask_selling_company loads dumps world s = (Raised e, s)"
  by (simp add: ask_selling_company_def)

lemma ask_selling_company_answers:
  "input world vendor_prompt = Inr sc \<Longrightarrow>
   ask_selling_company loads dumps world s =
     run_solution_reporter loads dumps world sc (assign ''selling_company'' (JString sc) s)"
  by (simp add: ask_selling_company_def)

lemma challenges_raises:
  "client_run world industry_challenges_identifier (challenges_messages dumps ci pp) = Inl e \<Longrightarrow>
   run_industry_challenges_identifier loads dumps world ci pp s =
     (Raised e, called industry_challenges_identifier (challenges_messages dumps ci pp) s)"
  by (simp add: run_industry_challenges_identifier_def)

lemma challenges_fails:
  "client_run world industry_challenges_identifier (challenges_messages dumps ci pp) = Inr raw \<Longrightarrow>
   snd (clean_and_parse_json loads raw) = Inr r \<Longrightarrow> \<not> truthy r \<Longrightarrow>
   run_industry_challenges_identifier loads dumps world ci pp s =
     ask_selling_company loads dumps world
       (assign ''industry_challenges'' placeholder
          (emit [Print ''Failed to parse industry challenges. Please check the logs and try again.'',
                 Log_error ''Failed to parse industry challenges'']
             (emit (fst (clean_and_parse_json loads raw))
                (called industry_challenges_identifier (challenges_messages dumps ci pp) s))))"
  by (auto simp: run_industry_challenges_identifier_def Let_def split: prod.splits option.splits sum.splits)

lemma challenges_succeeds:
  "client_run world industry_challenges_identifier (challenges_messages dumps ci pp) = Inr raw \<Longrightarrow>
   snd (clean_and_parse_json loads raw) = Inr (Some v) \<Longrightarrow> truthy (Some v) \<Longrightarrow>
   run_industry_challenges_identifier loads dumps world ci pp s =
     ask_selling_company loads dumps world
       (assign ''industry_challenges'' v
          (emit (fst (clean_and_parse_json loads raw))
             (called industry_challenges_identifier (challenges_messages dumps ci pp) s)))"
  by (auto simp: run_industry_challenges_identifier_def Let_def split: prod.splits option.splits sum.splits)

lemma pain_raises:
  "client_run world pain_point_analyzer (pain_messages dumps ci) = Inl e \<Longrightarrow>
   run_pain_point_analyzer loads dumps world ci s =
     (Raised e, called pain_point_analyzer (pain_messages dumps ci) s)"
  by (simp add: run_pain_point_analyzer_def)

lemma pain_fails:
  "client_run world pain_point_analyzer (pain_messages dumps ci) = Inr raw \<Longrightarrow>
   snd (clean_and_parse_json loads raw) = Inr r \<Longrightarrow> \<not> truthy r \<Longrightarrow>
   run_pain_point_analyzer loads dumps world ci s =
     (Returned,
      emit [Print ''Failed to parse pain points. Please check the logs and try again.'']
        (emit (fst (clean_and_parse_json loads raw))
           (called pain_point_analyzer (pain_messages dumps ci) s)))"
  by (auto simp: run_pain_point_analyzer_def Let_def split: prod.splits option.splits sum.splits)

lemma pain_succeeds:
  "client_run world pain_point_analyzer (pain_messages dumps ci) = Inr raw \<Longrightarrow>
   snd (clean_and_parse_json loads raw) = Inr (Some v) \<Longrightarrow> truthy (Some v) \<Longrightarrow>
   run_pain_point_analyzer loads dumps world ci s =
     run_industry_challenges_identifier loads dumps world ci v
       (assign ''pain_points'' v
          (emit (fst (clean_and_parse_json loads raw))
             (called pain_point_analyzer (pain_messages dumps ci) s)))"
  by (auto simp: run_pain_point_analyzer_def Let_def split: prod.splits option.splits sum.splits)

lemma info_raises:
  "client_run world info_extractor (info_messages url) = Inl e \<Longrightarrow>
   run_info_extractor loads dumps world url s =
     (Raised e, called info_extractor (info_messages url) s)"
  by (simp add: run_info_extractor_def)

lemma info_fails:
  "client_run world info_extractor (info_messages url) = Inr raw \<Longrightarrow>
   snd (clean_and_parse_json loads raw) = Inr r \<Longrightarrow> \<not> truthy r \<Longrightarrow>
   run_info_extractor loads dumps world url s =
     (Returned,
      emit [Print ''Failed to parse company info. Please check the logs and try again.'']
        (emit (fst (clean_and_parse_json loads raw))
           (called info_extractor (info_messages url) s)))"
  by (auto simp: run_info_extractor_def Let_def split: prod.splits option.splits sum.splits)

lemma info_succeeds:
  "client_run world info_extractor (info_messages url) = Inr raw \<Longrightarrow>
   snd (clean_and_parse_json loads raw) = Inr (Some v) \<Longrightarrow> truthy (Some v) \<Longrightarrow>
   run_info_extractor loads dumps world url s =
     run_pain_point_analyzer loads dumps world v
       (assign ''company_info'' v
          (emit (fst (clean_and_parse_json loads raw))
             (called info_extractor (info_messages url) s)))"
  by (auto simp: run_info_extractor_def Let_def split: prod.splits option.splits sum.splits)

text \<open>An exception that leaves the extractor ends the block, before any assignment.\<close>

lemma solution_reporter_breaks:
  "client_run world solution_reporter (solution_messages dumps (combined_output s) sc) = Inr raw \<Longrightarrow>
   snd (clean_and_parse_json loads raw) = Inl e \<Longrightarrow>
   run_solution_reporter loads dumps world sc s =
     (Raised e,
      emit (fst (clean_and_parse_json loads raw))
        (called solution_reporter (solution_messages dumps (combined_output s) sc) s))"
  by (auto simp: run_solution_reporter_def Let_def split: prod.splits option.splits sum.splits)

lemma challenges_breaks:
  "client_run world industry_challenges_identifier (challenges_messages dumps ci pp) = Inr raw \<Longrightarrow>
   snd (clean_and_parse_json loads raw) = Inl e \<Longrightarrow>
   run_industry_challenges_identifier loads dumps world ci pp s =
     (Raised e,
      emit (fst (clean_and_parse_json loads raw))
        (called industry_challenges_identifier (challenges_messages dumps ci pp) s))"
  by (auto simp: run_industry_challenges_identifier_def Let_def split: prod.splits option.splits sum.splits)

lemma pain_breaks:
  "client_run world pain_point_analyzer (pain_messages dumps ci) = Inr raw \<Longrightarrow>
   snd (clean_and_parse_json loads raw) = Inl e \<Longrightarrow>
   run_pain_point_analyzer loads dumps world ci s =
     (Raised e,
      emit (fst (clean_and_parse_json loads raw))
        (called pain_point_analyzer (pain_messages dumps ci) s))"
  by (auto simp: run_pain_point_analyzer_def Let_def split: prod.splits option.splits sum.splits)

lemma info_breaks:
  "client_run world info_extractor (info_messages url) = Inr raw \<Longrightarrow>
   snd (clean_and_parse_json loads raw) = Inl e \<Longrightarrow>
   run_info_extractor loads dumps world url s =
     (Raised e,
      emit (fst (clean_and_parse_json loads raw))
        (called info_extractor (info_messages url) s))"
  by (auto simp: run_info_extractor_def Let_def split: prod.splits option.splits sum.splits)

lemma call_cases [case_names raises breaks fails succeeds]:
  obtains e where "client_run world a m = Inl e"
  | raw e where "client_run world a m = Inr raw" "snd (clean_and_parse_json loads raw) = Inl e"
  | raw r where "client_run world a m = Inr raw" "snd (clean_and_parse_json loads raw) = Inr r"
      "\<not> truthy r"
  | raw v where "client_run world a m = Inr raw" "snd (clean_and_parse_json loads raw) = Inr (Some v)"
      "truthy (Some v)"
proof (cases "client_run world a m")
  case (Inl e)
  then show ?thesis using that(1) by blast
next
  case (Inr raw)
  show ?thesis
  proof (cases "snd (clean_and_parse_json loads raw)")
    case (Inl e)
    with Inr show ?thesis using that(2) by blast
  next
    case r: (Inr r)
    show ?thesis
    proof (cases "truthy r")
      case True
      then obtain v where "r = Some v"
        using truthy_Some by blast
      with True Inr r show ?thesis using that(4) by simp
    next
      case False
      with Inr r show ?thesis using that(3) by blast
    qed
  qed
qed

lemma keys_setitem [simp]: "fst ` set (setitem k v d) = insert k (fst ` set d)"
  by (induction d) force+

lemma setitem_fresh: "k \<notin> fst ` set d \<Longrightarrow> setitem k v d = d @ [(k, v)]"
  by (induction d) auto

lemma accumulating_emit [simp]: "accumulating (emit es s) = accumulating s"
  by (simp add: accumulating_def)

lemma accumulating_called [simp]: "accumulating (called a m s) = accumulating s"
  by (simp add: accumulating_def)

lemma accumulating_dump [simp]: "accumulating (dump s) = accumulating s"
  by (simp add: accumulating_def)

lemma accumulating_save [simp]: "accumulating (save s) = accumulating s"
  by (simp add: accumulating_def)

lemma accumulating_handler [simp]: "accumulating (handler e s) = accumulating s"
  by (simp add: accumulating_def)

lemma accumulating_initial: "accumulating initial"
  by (simp add: accumulating_def)

lemma accumulating_assign:
  assumes "accumulating s" and "k \<notin> fst ` set (combined_output s)"
  shows "accumulating (assign k v s)"
proof -
  let ?h = "history s" and ?d = "combined_output s"
  from assms(1) have h: "?h \<noteq> []" "hd ?h = []" "last ?h = ?d" "sorted_wrt prefix ?h"
    by (simp_all add: accumulating_def)
  have new: "setitem k v ?d = ?d @ [(k, v)]"
    using assms(2) by (rule setitem_fresh)
  have "prefix y ?d" if "y \<in> set ?h" for y
  proof -
    from that obtain i where i: "i < length ?h" "y = ?h ! i" by (auto simp: in_set_conv_nth)
    show ?thesis
    proof (cases "i = length ?h - 1")
      case True
      with i h show ?thesis by (simp add: last_conv_nth)
    next
      case False
      with i have "i < length ?h - 1" by simp
      with h(4) i have "prefix (?h ! i) (?h ! (length ?h - 1))"
        by (simp add: sorted_wrt_iff_nth_less)
      with i h show ?thesis by (simp add: last_conv_nth)
    qed
  qed
  then have "\<forall>y\<in>set ?h. prefix y (?d @ [(k, v)])"
    by (meson prefix_order.trans prefixI)
  with h new show ?thesis
    by (simp add: accumulating_def sorted_wrt_append)
qed

lemma accumulating_solution_reporter:
  assumes "accumulating s" and "''solutions'' \<notin> fst ` set (combined_output s)"
  shows "accumulating (snd (run_solution_reporter loads dumps world sc s))"
proof (cases rule: call_cases [where world = world and a = solution_reporter and m = "solution_messages dumps (combined_output s) sc" and loads = loads])
  case (raises e)
  with assms show ?thesis by (simp add: solution_reporter_raises)
next
  case (breaks raw e)
  with assms show ?thesis by (simp add: solution_reporter_breaks)
next
  case (fails raw r)
  with assms show ?thesis by (simp add: solution_reporter_fails)
next
  case (succeeds raw v)
  with assms show ?thesis by (simp add: solution_reporter_succeeds accumulating_assign)
qed

lemma accumulating_ask_selling_company:
  assumes "accumulating s"
      and "fst ` set (combined_output s) \<subseteq> {''company_info'', ''pain_points'', ''industry_challenges''}"
  shows "accumulating (snd (ask_selling_company loads dumps world s))"
proof (cases "input world vendor_prompt")
  case (Inl e)
  with assms show ?thesis by (simp add: ask_selling_company_raises)
next
  case (Inr sc)
  have "''selling_company'' \<notin> fst ` set (combined_output s)"
    using assms(2) by auto
  then have "accumulating (assign ''selling_company'' (JString sc) s)"
    using assms(1) by (simp add: accumulating_assign)
  moreover have "''solutions'' \<notin> fst ` set (combined_output (assign ''selling_company'' (JString sc) s))"
    using assms(2) by auto
  ultimately show ?thesis
    unfolding ask_selling_company_answers [OF Inr] by (rule accumulating_solution_reporter)
qed

lemma accumulating_challenges:
  assumes "accumulating s"
      and "fst ` set (combined_output s) \<subseteq> {''company_info'', ''pain_points''}"
  shows "accumulating (snd (run_industry_challenges_identifier loads dumps world ci pp s))"
proof -
  have fresh: "''industry_challenges'' \<notin> fst ` set (combined_output s)"
    using assms(2) by auto
  have next_stage: "accumulating (snd (ask_selling_company loads dumps world (assign ''industry_challenges'' v t)))"
    if "accumulating t" "combined_output t = combined_output s" for v t
  proof (rule accumulating_ask_selling_company)
    show "accumulating (assign ''industry_challenges'' v t)"
      using that fresh by (simp add: accumulating_assign)
    show "fst ` set (combined_output (assign ''industry_challenges'' v t))
            \<subseteq> {''company_info'', ''pain_points'', ''industry_challenges''}"
      using that assms(2) by auto
  qed
  show ?thesis
  proof (cases rule: call_cases [where world = world and a = industry_challenges_identifier and m = "challenges_messages dumps ci pp" and loads = loads])
    case (raises e)
    with assms show ?thesis by (simp add: challenges_raises)
  next
    case (breaks raw e)
    with assms show ?thesis by (simp add: challenges_breaks)
  next
    case (fails raw r)
    then show ?thesis using assms(1) by (simp add: challenges_fails next_stage)
  next
    case (succeeds raw v)
    then show ?thesis using assms(1) by (simp add: challenges_succeeds next_stage)
  qed
qed

lemma accumulating_pain:
  assumes "accumulating s"
      and "fst ` set (combined_output s) \<subseteq> {''company_info''}"
  shows "accumulating (snd (run_pain_point_analyzer loads dumps world ci s))"
proof (cases rule: call_cases [where world = world and a = pain_point_analyzer and m = "pain_messages dumps ci" and loads = loads])
  case (raises e)
  with assms show ?thesis by (simp add: pain_raises)
next
  case (breaks raw e)
  with assms show ?thesis by (simp add: pain_breaks)
next
  case (fails raw r)
  with assms show ?thesis by (simp add: pain_fails)
next
  case (succeeds raw v)
  let ?t = "emit (fst (clean_and_parse_json loads raw)) (called pain_point_analyzer (pain_messages dumps ci) s)"
  have "''pain_points'' \<notin> fst ` set (combined_output ?t)"
    using assms(2) by auto
  then have "accumulating (assign ''pain_points'' v ?t)"
    using assms(1) by (simp add: accumulating_assign)
  moreover have "fst ` set (combined_output (assign ''pain_points'' v ?t)) \<subseteq> {''company_info'', ''pain_points''}"
    using assms(2) by auto
  ultimately show ?thesis
    unfolding pain_succeeds [OF succeeds] by (rule accumulating_challenges)
qed

lemma accumulating_info:
  assumes "accumulating s" and "combined_output s = []"
  shows "accumulating (snd (run_info_extractor loads dumps world url s))"
proof (cases rule: call_cases [where world = world and a = info_extractor and m = "info_messages url" and loads = loads])
  case (raises e)
  with assms show ?thesis by (simp add: info_raises)
next
  case (breaks raw e)
  with assms show ?thesis by (simp add: info_breaks)
next
  case (fails raw r)
  with assms show ?thesis by (simp add: info_fails)
next
  case (succeeds raw v)
  let ?t = "emit (fst (clean_and_parse_json loads raw)) (called info_extractor (info_messages url) s)"
  have "accumulating (assign ''company_info'' v ?t)"
    using assms by (simp add: accumulating_assign)
  moreover have "fst ` set (combined_output (assign ''company_info'' v ?t)) \<subseteq> {''company_info''}"
    using assms(2) by auto
  ultimately show ?thesis
    unfolding info_succeeds [OF succeeds] by (rule accumulating_pain)
qed

lemma accumulating_try_block: "accumulating (snd (try_block loads dumps world url))"
  unfolding try_block_def by (rule accumulating_info) (simp_all add: accumulating_initial)

lemma accumulating_main: "accumulating (snd (main loads dumps world))"
proof (cases "input world url_prompt")
  case (Inl e)
  then show ?thesis by (simp add: main_def accumulating_initial)
next
  case (Inr url)
  obtain fl s where r: "try_block loads dumps world url = (fl, s)" by (cases "try_block loads dumps world url")
  with accumulating_try_block [of loads dumps world url] have "accumulating s" by simp
  with Inr r show ?thesis by (cases fl) (simp_all add: main_def)
qed

text \<open>The file is written inside the block only when the block completes.\<close>

lemma written_solution_reporter:
  assumes "written s = None"
  shows "written (snd (run_solution_reporter loads dumps world sc s)) =
           (if fst (run_solution_reporter loads dumps world sc s) = Completed
            then Some (combined_output (snd (run_solution_reporter loads dumps world sc s)))
            else None)"
proof (cases rule: call_cases
    [where world = world and a = solution_reporter
       and m = "solution_messages dumps (combined_output s) sc" and loads = loads])
  case (raises e)
  with assms show ?thesis by (simp add: solution_reporter_raises)
next
  case (breaks raw e)
  with assms show ?thesis by (simp add: solution_reporter_breaks)
next
  case (fails raw r)
  with assms show ?thesis by (simp add: solution_reporter_fails)
next
  case (succeeds raw v)
  with assms show ?thesis by (simp add: solution_reporter_succeeds)
qed

lemma written_ask_selling_company:
  assumes "written s = None"
  shows "written (snd (ask_selling_company loads dumps world s)) =
           (if fst (ask_selling_company loads dumps world s) = Completed
            then Some (combined_output (snd (ask_selling_company loads dumps world s)))
            else None)"
proof (cases "input world vendor_prompt")
  case (Inl e)
  with assms show ?thesis by (simp add: ask_selling_company_raises)
next
  case (Inr sc)
  have "written (assign ''selling_company'' (JString sc) s) = None"
    using assms by simp
  then show ?thesis
    unfolding ask_selling_company_answers [OF Inr] by (rule written_solution_reporter)
qed

lemma written_challenges:
  assumes "written s = None"
  shows "written (snd (run_industry_challenges_identifier loads dumps world ci pp s)) =
           (if fst (run_industry_challenges_identifier loads dumps world ci pp s) = Completed
            then Some (combined_output (snd (run_industry_challenges_identifier loads dumps world ci pp s)))
            else None)"
proof (cases rule: call_cases
    [where world = world and a = industry_challenges_identifier
       and m = "challenges_messages dumps ci pp" and loads = loads])
  case (raises e)
  with assms show ?thesis by (simp add: challenges_raises)
next
  case (breaks raw e)
  with assms show ?thesis by (simp add: challenges_breaks)
next
  case (fails raw r)
  show ?thesis
    unfolding challenges_fails [OF fails]
    by (rule written_ask_selling_company) (simp add: assms)
next
  case (succeeds raw v)
  show ?thesis
    unfolding challenges_succeeds [OF succeeds]
    by (rule written_ask_selling_company) (simp add: assms)
qed

lemma written_pain:
  assumes "written s = None"
  shows "written (snd (run_pain_point_analyzer loads dumps world ci s)) =
           (if fst (run_pain_point_analyzer loads dumps world ci s) = Completed
            then Some (combined_output (snd (run_pain_point_analyzer loads dumps world ci s)))
            else None)"
proof (cases rule: call_cases
    [where world = world and a = pain_point_analyzer
       and m = "pain_messages dumps ci" and loads = loads])
  case (raises e)
  with assms show ?thesis by (simp add: pain_raises)
next
  case (breaks raw e)
  with assms show ?thesis by (simp add: pain_breaks)
next
  case (fails raw r)
  with assms show ?thesis by (simp add: pain_fails)
next
  case (succeeds raw v)
  show ?thesis
    unfolding pain_succeeds [OF succeeds]
    by (rule written_challenges) (simp add: assms)
qed

lemma written_info:
  assumes "written s = None"
  shows "written (snd (run_info_extractor loads dumps world url s)) =
           (if fst (run_info_extractor loads dumps world url s) = Completed
            then Some (combined_output (snd (run_info_extractor loads dumps world url s)))
            else None)"
proof (cases rule: call_cases
    [where world = world and a = info_extractor
       and m = "info_messages url" and loads = loads])
  case (raises e)
  with assms show ?thesis by (simp add: info_raises)
next
  case (breaks raw e)
  with assms show ?thesis by (simp add: info_breaks)
next
  case (fails raw r)
  with assms show ?thesis by (simp add: info_fails)
next
  case (succeeds raw v)
  show ?thesis
    unfolding info_succeeds [OF succeeds]
    by (rule written_pain) (simp add: assms)
qed

lemma written_try_block:
  "written (snd (try_block loads dumps world url)) =
     (if fst (try_block loads dumps world url) = Completed
      then Some (combined_output (snd (try_block loads dumps world url)))
      else None)"
  unfolding try_block_def by (rule written_info) simp

text \<open>A call that raised ends the block with that exception.\<close>

lemma raised_solution_reporter:
  assumes "(a, m) \<in> set (calls (snd (run_solution_reporter loads dumps world sc s)))"
      and "(a, m) \<notin> set (calls s)" and "client_run world a m = Inl e"
  shows "fst (run_solution_reporter loads dumps world sc s) = Raised e"
proof (cases rule: call_cases
    [where world = world and a = solution_reporter
       and m = "solution_messages dumps (combined_output s) sc" and loads = loads])
  case (raises e')
  with assms show ?thesis by (auto simp: solution_reporter_raises)
next
  case (breaks raw e')
  with assms show ?thesis by (auto simp: solution_reporter_breaks)
next
  case (fails raw r)
  with assms show ?thesis by (auto simp: solution_reporter_fails)
next
  case (succeeds raw v)
  with assms show ?thesis by (auto simp: solution_reporter_succeeds)
qed

lemma raised_ask_selling_company:
  assumes "(a, m) \<in> set (calls (snd (ask_selling_company loads dumps world s)))"
      and "(a, m) \<notin> set (calls s)" and "client_run world a m = Inl e"
  shows "fst (ask_selling_company loads dumps world s) = Raised e"
proof (cases "input world vendor_prompt")
  case (Inl e')
  with assms show ?thesis by (simp add: ask_selling_company_raises)
next
  case (Inr sc)
  show ?thesis
    using assms unfolding ask_selling_company_answers [OF Inr]
    by (auto intro: raised_solution_reporter)
qed

lemma raised_challenges:
  assumes "(a, m) \<in> set (calls (snd (run_industry_challenges_identifier loads dumps world ci pp s)))"
      and "(a, m) \<notin> set (calls s)" and "client_run world a m = Inl e"
  shows "fst (run_industry_challenges_identifier loads dumps world ci pp s) = Raised e"
proof (cases rule: call_cases
    [where world = world and a = industry_challenges_identifier
       and m = "challenges_messages dumps ci pp" and loads = loads])
  case (raises e')
  with assms show ?thesis by (auto simp: challenges_raises)
next
  case (breaks raw e')
  with assms show ?thesis by (auto simp: challenges_breaks)
next
  case (fails raw r)
  have "(a, m) \<noteq> (industry_challenges_identifier, challenges_messages dumps ci pp)"
    using fails(1) assms(3) by auto
  then show ?thesis
    using assms unfolding challenges_fails [OF fails]
    by (auto intro: raised_ask_selling_company)
next
  case (succeeds raw v)
  have "(a, m) \<noteq> (industry_challenges_identifier, challenges_messages dumps ci pp)"
    using succeeds(1) assms(3) by auto
  then show ?thesis
    using assms unfolding challenges_succeeds [OF succeeds]
    by (auto intro: raised_ask_selling_company)
qed

lemma raised_pain:
  assumes "(a, m) \<in> set (calls (snd (run_pain_point_analyzer loads dumps world ci s)))"
      and "(a, m) \<notin> set (calls s)" and "client_run world a m = Inl e"
  shows "fst (run_pain_point_analyzer loads dumps world ci s) = Raised e"
proof (cases rule: call_cases
    [where world = world and a = pain_point_analyzer
       and m = "pain_messages dumps ci" and loads = loads])
  case (raises e')
  with assms show ?thesis by (auto simp: pain_raises)
next
  case (breaks raw e')
  with assms show ?thesis by (auto simp: pain_breaks)
next
  case (fails raw r)
  with assms show ?thesis by (auto simp: pain_fails)
next
  case (succeeds raw v)
  have "(a, m) \<noteq> (pain_point_analyzer, pain_messages dumps ci)"
    using succeeds(1) assms(3) by auto
  then show ?thesis
    using assms unfolding pain_succeeds [OF succeeds]
    by (auto intro: raised_challenges)
qed

lemma raised_info:
  assumes "(a, m) \<in> set (calls (snd (run_info_extractor loads dumps world url s)))"
      and "(a, m) \<notin> set (calls s)" and "client_run world a m = Inl e"
  shows "fst (run_info_extractor loads dumps world url s) = Raised e"
proof (cases rule: call_cases
    [where world = world and a = info_extractor
       and m = "info_messages url" and loads = loads])
  case (raises e')
  with assms show ?thesis by (auto simp: info_raises)
next
  case (breaks raw e')
  with assms show ?thesis by (auto simp: info_breaks)
next
  case (fails raw r)
  with assms show ?thesis by (auto simp: info_fails)
next
  case (succeeds raw v)
  have "(a, m) \<noteq> (info_extractor, info_messages url)"
    using succeeds(1) assms(3) by auto
  then show ?thesis
    using assms unfolding info_succeeds [OF succeeds]
    by (auto intro: raised_pain)
qed

lemma raised_try_block:
  assumes "(a, m) \<in> set (calls (snd (try_block loads dumps world url)))"
      and "client_run world a m = Inl e"
  shows "fst (try_block loads dumps world url) = Raised e"
  using assms unfolding try_block_def by (auto intro: raised_info)

lemma main_after_prompt:
  assumes "input world url_prompt = Inr url"
  shows "main loads dumps world =
     (case fst (try_block loads dumps world url) of
        Returned \<Rightarrow> (None, snd (try_block loads dumps world url))
      | Completed \<Rightarrow> (None, save (snd (try_block loads dumps world url)))
      | Raised e \<Rightarrow> (None, save (handler e (snd (try_block loads dumps world url)))))"
  using assms by (simp add: main_def split: prod.splits flow.splits)

section \<open>The pipeline: results\<close>

lemma sample_object_parsed:
  "snd (clean_and_parse_json json_loads sample_object) = Inr (Some (JObject [(''k'', JInt 1)]))"
  by code_simp

lemma refusal_parsed: "snd (clean_and_parse_json json_loads refusal) = Inr None"
  by code_simp

lemma main_challenges_fail:
  assumes "input world url_prompt = Inr url"
      and "client_run world info_extractor (info_messages url) = Inr raw1"
      and "snd (clean_and_parse_json loads raw1) = Inr (Some v1)" and "truthy (Some v1)"
      and "client_run world pain_point_analyzer (pain_messages dumps v1) = Inr raw2"
      and "snd (clean_and_parse_json loads raw2) = Inr (Some v2)" and "truthy (Some v2)"
      and "client_run world industry_challenges_identifier (challenges_messages dumps v1 v2) = Inr raw3"
      and "snd (clean_and_parse_json loads raw3) = Inr r3" and "\<not> truthy r3"
      and "input world vendor_prompt = Inr vendor"
      and "client_run world solution_reporter
             (solution_messages dumps
                [(''company_info'', v1), (''pain_points'', v2),
                 (''industry_challenges'', placeholder), (''selling_company'', JString vendor)]
                vendor) = Inr raw4"
      and "snd (clean_and_parse_json loads raw4) = Inr (Some v4)" and "truthy (Some v4)"
  shows "fst (main loads dumps world) = None"
    and "map fst (calls (snd (main loads dumps world))) =
           [info_extractor, pain_point_analyzer, industry_challenges_identifier, solution_reporter]"
    and "history (snd (main loads dumps world)) =
           [[],
            [(''company_info'', v1)],
            [(''company_info'', v1), (''pain_points'', v2)],
            [(''company_info'', v1), (''pain_points'', v2), (''industry_challenges'', placeholder)],
            [(''company_info'', v1), (''pain_points'', v2), (''industry_challenges'', placeholder),
             (''selling_company'', JString vendor)],
            [(''company_info'', v1), (''pain_points'', v2), (''industry_challenges'', placeholder),
             (''selling_company'', JString vendor), (''solutions'', v4)]]"
    and "written (snd (main loads dumps world)) =
           Some [(''company_info'', v1), (''pain_points'', v2), (''industry_challenges'', placeholder),
                 (''selling_company'', JString vendor), (''solutions'', v4)]"
proof -
  let ?s0 = "emit [Print ''Welcome to the IT Solutions Sales Team!''] initial"
  let ?s1 = "assign ''company_info'' v1
               (emit (fst (clean_and_parse_json loads raw1)) (called info_extractor (info_messages url) ?s0))"
  let ?s2 = "assign ''pain_points'' v2
               (emit (fst (clean_and_parse_json loads raw2)) (called pain_point_analyzer (pain_messages dumps v1) ?s1))"
  let ?s3 = "assign ''industry_challenges'' placeholder
          (emit [Print ''Failed to parse industry challenges. Please check the logs and try again.'',
                 Log_error ''Failed to parse industry challenges'']
             (emit (fst (clean_and_parse_json loads raw3))
                (called industry_challenges_identifier (challenges_messages dumps v1 v2) ?s2)))"
  let ?s4 = "assign ''selling_company'' (JString vendor) ?s3"
  have co: "combined_output ?s4 =
      [(''company_info'', v1), (''pain_points'', v2),
       (''industry_challenges'', placeholder), (''selling_company'', JString vendor)]"
    by simp
  have "try_block loads dumps world url = run_pain_point_analyzer loads dumps world v1 ?s1"
    unfolding try_block_def using assms(2,3,4) by (rule info_succeeds)
  also have "\<dots> = run_industry_challenges_identifier loads dumps world v1 v2 ?s2"
    using assms(5,6,7) by (rule pain_succeeds)
  also have "\<dots> = ask_selling_company loads dumps world ?s3"
    using assms(8,9,10) by (rule challenges_fails)
  also have "\<dots> = run_solution_reporter loads dumps world vendor ?s4"
    using assms(11) by (rule ask_selling_company_answers)
  also have "\<dots> = (Completed,
      emit [Print (''\<newline>Combined analysis has been saved to 'combined_analysis.json'' @ [CHR 0x27])]
        (dump (assign ''solutions'' v4
           (emit (fst (clean_and_parse_json loads raw4))
              (called solution_reporter (solution_messages dumps (combined_output ?s4) vendor) ?s4)))))"
    using assms(12,13,14) unfolding co [symmetric] by (rule solution_reporter_succeeds)
  finally have b: "try_block loads dumps world url = (Completed,
      emit [Print (''\<newline>Combined analysis has been saved to 'combined_analysis.json'' @ [CHR 0x27])]
        (dump (assign ''solutions'' v4
           (emit (fst (clean_and_parse_json loads raw4))
              (called solution_reporter (solution_messages dumps (combined_output ?s4) vendor) ?s4)))))" .
  show "fst (main loads dumps world) = None"
    by (simp add: main_after_prompt [OF assms(1)] b)
  show "map fst (calls (snd (main loads dumps world))) =
           [info_extractor, pain_point_analyzer, industry_challenges_identifier, solution_reporter]"
    by (simp add: main_after_prompt [OF assms(1)] b)
  show "history (snd (main loads dumps world)) =
           [[],
            [(''company_info'', v1)],
            [(''company_info'', v1), (''pain_points'', v2)],
            [(''company_info'', v1), (''pain_points'', v2), (''industry_challenges'', placeholder)],
            [(''company_info'', v1), (''pain_points'', v2), (''industry_challenges'', placeholder),
             (''selling_company'', JString vendor)],
            [(''company_info'', v1), (''pain_points'', v2), (''industry_challenges'', placeholder),
             (''selling_company'', JString vendor), (''solutions'', v4)]]"
    by (simp add: main_after_prompt [OF assms(1)] b)
  show "written (snd (main loads dumps world)) =
           Some [(''company_info'', v1), (''pain_points'', v2), (''industry_challenges'', placeholder),
                 (''selling_company'', JString vendor), (''solutions'', v4)]"
    by (simp add: main_after_prompt [OF assms(1)] b)
qed

lemma world_challenges_fail_run:
  "input world_challenges_fail url_prompt = Inr ''https://acme.example''"
  "client_run world_challenges_fail info_extractor m1 = Inr sample_object"
  "client_run world_challenges_fail pain_point_analyzer m2 = Inr sample_object"
  "client_run world_challenges_fail industry_challenges_identifier m3 = Inr refusal"
  "input world_challenges_fail vendor_prompt = Inr ''Globex''"
  "client_run world_challenges_fail solution_reporter m4 = Inr sample_object"
  by (simp_all add: world_challenges_fail_def industry_challenges_identifier_def info_extractor_def
        pain_point_analyzer_def solution_reporter_def vendor_prompt_def url_prompt_def)

text \<open>
  C3.  A stage succeeds when the test \<open>if result:\<close> on the value the extractor returned
  passes, and fails otherwise (the extractor returned \<open>None\<close>, or an empty object).  If stages 1 and 2
  succeed, stage 3 fails, the operator names a vendor and stage 4 succeeds, then all four
  agents have been run, in order, and the document written has the five keys, with the
  placeholder under \<open>industry_challenges\<close>.
\<close>
theorem challenges_failure_tolerated:
  assumes "input world url_prompt = Inr url"
      and "client_run world info_extractor (info_messages url) = Inr raw1"
      and "snd (clean_and_parse_json loads raw1) = Inr (Some v1)" and "truthy (Some v1)"
      and "client_run world pain_point_analyzer (pain_messages dumps v1) = Inr raw2"
      and "snd (clean_and_parse_json loads raw2) = Inr (Some v2)" and "truthy (Some v2)"
      and "client_run world industry_challenges_identifier (challenges_messages dumps v1 v2) = Inr raw3"
      and "snd (clean_and_parse_json loads raw3) = Inr r3" and "\<not> truthy r3"
      and "input world vendor_prompt = Inr vendor"
      and "client_run world solution_reporter
             (solution_messages dumps
                [(''company_info'', v1), (''pain_points'', v2),
                 (''industry_challenges'', placeholder), (''selling_company'', JString vendor)]
                vendor) = Inr raw4"
      and "snd (clean_and_parse_json loads raw4) = Inr (Some v4)" and "truthy (Some v4)"
  shows "fst (main loads dumps world) = None \<and>
         map fst (calls (snd (main loads dumps world))) =
           [info_extractor, pain_point_analyzer, industry_challenges_identifier, solution_reporter] \<and>
         written (snd (main loads dumps world)) =
           Some [(''company_info'', v1), (''pain_points'', v2),
                 (''industry_challenges'', JObject [(''error'', JString ''Failed to parse'')]),
                 (''selling_company'', JString vendor), (''solutions'', v4)]"
  using main_challenges_fail(1,2,4) [OF assms] by (simp add: placeholder_def)

theorem challenges_failure_tolerated_witness:
  "fst (main json_loads json_dumps world_challenges_fail) = None \<and>
   map fst (calls (snd (main json_loads json_dumps world_challenges_fail))) =
     [info_extractor, pain_point_analyzer, industry_challenges_identifier, solution_reporter] \<and>
   written (snd (main json_loads json_dumps world_challenges_fail)) =
     Some [(''company_info'', JObject [(''k'', JInt 1)]),
           (''pain_points'', JObject [(''k'', JInt 1)]),
           (''industry_challenges'', JObject [(''error'', JString ''Failed to parse'')]),
           (''selling_company'', JString ''Globex''),
           (''solutions'', JObject [(''k'', JInt 1)])]"
proof -
  have t: "truthy (Some (JObject [(''k'', JInt 1)]))" by simp
  have f: "\<not> truthy None" by simp
  show ?thesis
    by (rule challenges_failure_tolerated
          [OF world_challenges_fail_run(1) world_challenges_fail_run(2) sample_object_parsed t
              world_challenges_fail_run(3) sample_object_parsed t
              world_challenges_fail_run(4) refusal_parsed f world_challenges_fail_run(5)
              world_challenges_fail_run(6) sample_object_parsed t])
qed

text \<open>
  C2.  If the extraction of stage 1 fails, or stage 1 succeeds and the extraction of stage 2
  fails, then stages 3 and 4 are not run; but \<open>main\<close> leaves through the \<open>return\<close> inside the
  \<open>try\<close> block, so the statements after the block are not reached and nothing is written
  to \<open>combined_analysis.json\<close>.
\<close>
theorem extraction_failure_returns_without_saving:
  assumes "input world url_prompt = Inr url"
      and "client_run world info_extractor (info_messages url) = Inr raw1"
      and "(\<exists>r1. snd (clean_and_parse_json loads raw1) = Inr r1 \<and> \<not> truthy r1) \<or>
           (\<exists>v1 raw2 r2. snd (clean_and_parse_json loads raw1) = Inr (Some v1) \<and> truthy (Some v1) \<and>
              client_run world pain_point_analyzer (pain_messages dumps v1) = Inr raw2 \<and>
              snd (clean_and_parse_json loads raw2) = Inr r2 \<and> \<not> truthy r2)"
  shows "written (snd (main loads dumps world)) = None \<and>
         industry_challenges_identifier \<notin> fst ` set (calls (snd (main loads dumps world))) \<and>
         solution_reporter \<notin> fst ` set (calls (snd (main loads dumps world)))"
proof -
  let ?s0 = "emit [Print ''Welcome to the IT Solutions Sales Team!''] initial"
  have ne: "industry_challenges_identifier \<noteq> info_extractor"
    "industry_challenges_identifier \<noteq> pain_point_analyzer"
    "solution_reporter \<noteq> info_extractor" "solution_reporter \<noteq> pain_point_analyzer"
    by (simp_all add: industry_challenges_identifier_def info_extractor_def
        pain_point_analyzer_def solution_reporter_def)
  from assms(3) show ?thesis
  proof
    assume "\<exists>r1. snd (clean_and_parse_json loads raw1) = Inr r1 \<and> \<not> truthy r1"
    then obtain r1 where "snd (clean_and_parse_json loads raw1) = Inr r1" "\<not> truthy r1"
      by blast
    with assms(2) have "try_block loads dumps world url =
        (Returned,
         emit [Print ''Failed to parse company info. Please check the logs and try again.'']
           (emit (fst (clean_and_parse_json loads raw1)) (called info_extractor (info_messages url) ?s0)))"
      unfolding try_block_def by (rule info_fails)
    then show ?thesis
      using assms(1) ne by (simp add: main_after_prompt)
  next
    assume "\<exists>v1 raw2 r2. snd (clean_and_parse_json loads raw1) = Inr (Some v1) \<and> truthy (Some v1) \<and>
              client_run world pain_point_analyzer (pain_messages dumps v1) = Inr raw2 \<and>
              snd (clean_and_parse_json loads raw2) = Inr r2 \<and> \<not> truthy r2"
    then obtain v1 raw2 r2
      where s1: "snd (clean_and_parse_json loads raw1) = Inr (Some v1)" "truthy (Some v1)"
      and s2: "client_run world pain_point_analyzer (pain_messages dumps v1) = Inr raw2"
        "snd (clean_and_parse_json loads raw2) = Inr r2" "\<not> truthy r2"
      by blast
    let ?s1 = "assign ''company_info'' v1
               (emit (fst (clean_and_parse_json loads raw1)) (called info_extractor (info_messages url) ?s0))"
    have "try_block loads dumps world url = run_pain_point_analyzer loads dumps world v1 ?s1"
      unfolding try_block_def using assms(2) s1 by (rule info_succeeds)
    also have "\<dots> = (Returned,
        emit [Print ''Failed to parse pain points. Please check the logs and try again.'']
          (emit (fst (clean_and_parse_json loads raw2))
             (called pain_point_analyzer (pain_messages dumps v1) ?s1)))"
      using s2 by (rule pain_fails)
    finally show ?thesis
      using assms(1) ne by (simp add: main_after_prompt)
  qed
qed

theorem extraction_failure_returns_without_saving_witness:
  "combined_output (snd (main json_loads json_dumps world_pain_fails)) =
     [(''company_info'', JObject [(''k'', JInt 1)])] \<and>
   written (snd (main json_loads json_dumps world_pain_fails)) = None \<and>
   industry_challenges_identifier \<notin> fst ` set (calls (snd (main json_loads json_dumps world_pain_fails))) \<and>
   solution_reporter \<notin> fst ` set (calls (snd (main json_loads json_dumps world_pain_fails)))"
proof -
  have ne: "pain_point_analyzer \<noteq> info_extractor"
    by (simp add: info_extractor_def pain_point_analyzer_def)
  have co: "combined_output (snd (main json_loads json_dumps world_pain_fails)) =
     [(''company_info'', JObject [(''k'', JInt 1)])]"
    by code_simp
  show ?thesis
    using extraction_failure_returns_without_saving
      [of world_pain_fails "''https://acme.example''" sample_object json_loads json_dumps] co
    by (simp add: world_pain_fails_def sample_object_parsed refusal_parsed ne ne [symmetric])
qed

text \<open>
  C4.  Once the first prompt has been answered, \<open>main\<close> never raises.  A call to
  \<open>client.run\<close> that raised ends the \<open>try\<close> block with that exception; whenever the block ends
  with an exception \<open>e\<close>, it is logged and the dictionary, as accumulated up to that point,
  is written to the file.  In particular, when stage 1 succeeds and stage 2 raises, the
  document written holds \<open>company_info\<close> alone.
\<close>
theorem exceptions_caught_and_saved:
  assumes "input world url_prompt = Inr url"
  shows "fst (main loads dumps world) = None \<and>
         (\<forall>a m e. (a, m) \<in> set (calls (snd (main loads dumps world))) \<and> client_run world a m = Inl e \<longrightarrow>
            fst (try_block loads dumps world url) = Raised e) \<and>
         (\<forall>e. fst (try_block loads dumps world url) = Raised e \<longrightarrow>
            Log_error (''Unexpected error: '' @ str e) \<in> set (events (snd (main loads dumps world))) \<and>
            Log_exception ''Exception details:'' e \<in> set (events (snd (main loads dumps world))) \<and>
            combined_output (snd (main loads dumps world)) =
              combined_output (snd (try_block loads dumps world url)) \<and>
            written (snd (main loads dumps world)) =
              Some (combined_output (snd (try_block loads dumps world url)))) \<and>
         (\<forall>raw1 v1 e.
            client_run world info_extractor (info_messages url) = Inr raw1 \<and>
            snd (clean_and_parse_json loads raw1) = Inr (Some v1) \<and> truthy (Some v1) \<and>
            client_run world pain_point_analyzer (pain_messages dumps v1) = Inl e \<longrightarrow>
            written (snd (main loads dumps world)) = Some [(''company_info'', v1)])"
proof -
  let ?b = "try_block loads dumps world url"
  note m = main_after_prompt [OF assms, of loads dumps]
  have a: "fst (main loads dumps world) = None"
    by (simp add: m split: flow.splits)
  have calls_eq: "calls (snd (main loads dumps world)) = calls (snd ?b)"
    by (simp add: m split: flow.splits)
  have b: "fst ?b = Raised e" if "(a, m) \<in> set (calls (snd (main loads dumps world)))"
    "client_run world a m = Inl e" for a m e
    using that raised_try_block [of a m loads dumps world url e] by (simp add: calls_eq)
  have c: "Log_error (''Unexpected error: '' @ str e) \<in> set (events (snd (main loads dumps world))) \<and>
      Log_exception ''Exception details:'' e \<in> set (events (snd (main loads dumps world))) \<and>
      combined_output (snd (main loads dumps world)) = combined_output (snd ?b) \<and>
      written (snd (main loads dumps world)) = Some (combined_output (snd ?b))"
    if "fst ?b = Raised e" for e
    using that by (simp add: m save_def)
  have d: "written (snd (main loads dumps world)) = Some [(''company_info'', v1)]"
    if "client_run world info_extractor (info_messages url) = Inr raw1"
      "snd (clean_and_parse_json loads raw1) = Inr (Some v1)" "truthy (Some v1)"
      "client_run world pain_point_analyzer (pain_messages dumps v1) = Inl e" for raw1 v1 e
  proof -
    let ?s0 = "emit [Print ''Welcome to the IT Solutions Sales Team!''] initial"
    let ?s1 = "assign ''company_info'' v1
               (emit (fst (clean_and_parse_json loads raw1)) (called info_extractor (info_messages url) ?s0))"
    have "?b = run_pain_point_analyzer loads dumps world v1 ?s1"
      unfolding try_block_def using that(1,2,3) by (rule info_succeeds)
    also have "\<dots> = (Raised e, called pain_point_analyzer (pain_messages dumps v1) ?s1)"
      using that(4) by (rule pain_raises)
    finally show ?thesis by (simp add: m)
  qed
  from a b c d show ?thesis by blast
qed

theorem exceptions_caught_and_saved_witness:
  "fst (main json_loads json_dumps world_pain_raises) = None \<and>
   fst (try_block json_loads json_dumps world_pain_raises ''https://acme.example'') =
     Raised (Exception ''connection reset'') \<and>
   Log_exception ''Exception details:'' (Exception ''connection reset'')
     \<in> set (events (snd (main json_loads json_dumps world_pain_raises))) \<and>
   written (snd (main json_loads json_dumps world_pain_raises)) =
     Some [(''company_info'', JObject [(''k'', JInt 1)])]"
proof -
  have ne: "pain_point_analyzer \<noteq> info_extractor"
    by (simp add: info_extractor_def pain_point_analyzer_def)
  have r: "fst (try_block json_loads json_dumps world_pain_raises ''https://acme.example'') =
     Raised (Exception ''connection reset'')"
    by code_simp
  have p: "input world_pain_raises url_prompt = Inr ''https://acme.example''"
    by (simp add: world_pain_raises_def)
  have c1: "client_run world_pain_raises info_extractor (info_messages ''https://acme.example'') =
      Inr sample_object"
    by (simp add: world_pain_raises_def ne [symmetric])
  have c2: "client_run world_pain_raises pain_point_analyzer
      (pain_messages json_dumps (JObject [(''k'', JInt 1)])) = Inl (Exception ''connection reset'')"
    by (simp add: world_pain_raises_def)
  have t: "truthy (Some (JObject [(''k'', JInt 1)]))" by simp
  note T = exceptions_caught_and_saved [OF p, of json_loads json_dumps]
  have "fst (main json_loads json_dumps world_pain_raises) = None"
    by (rule T [THEN conjunct1])
  moreover have "Log_exception ''Exception details:'' (Exception ''connection reset'')
      \<in> set (events (snd (main json_loads json_dumps world_pain_raises)))"
    using T [THEN conjunct2, THEN conjunct2, THEN conjunct1, rule_format, OF r] by (rule conjunct2 [THEN conjunct1])
  moreover have "written (snd (main json_loads json_dumps world_pain_raises)) =
      Some [(''company_info'', JObject [(''k'', JInt 1)])]"
    using T [THEN conjunct2, THEN conjunct2, THEN conjunct2, rule_format,
        of sample_object "JObject [(''k'', JInt 1)]" "Exception ''connection reset''"]
      c1 c2 t sample_object_parsed by (simp only: simp_thms)
  ultimately show ?thesis using r by (simp only: simp_thms)
qed

text \<open>
  C8.  \<open>history\<close> lists the values of \<open>combined_output\<close> after each assignment, starting with the
  empty dictionary.  In every run each value is an initial segment of every later one:
  a key that has been set keeps its place and its value to the end.  The last value is
  the final dictionary, and a document that is written is that dictionary.
\<close>
theorem combined_output_only_extended:
  "hd (history (snd (main loads dumps world))) = [] \<and>
   last (history (snd (main loads dumps world))) = combined_output (snd (main loads dumps world)) \<and>
   (\<forall>i j. i \<le> j \<and> j < length (history (snd (main loads dumps world))) \<longrightarrow>
      prefix (history (snd (main loads dumps world)) ! i) (history (snd (main loads dumps world)) ! j)) \<and>
   (\<forall>d. written (snd (main loads dumps world)) = Some d \<longrightarrow>
      d = combined_output (snd (main loads dumps world)))"
proof -
  let ?s = "snd (main loads dumps world)"
  have acc: "accumulating ?s" by (rule accumulating_main)
  have "prefix (history ?s ! i) (history ?s ! j)" if "i \<le> j" "j < length (history ?s)" for i j
  proof (cases "i = j")
    case True
    then show ?thesis by simp
  next
    case False
    with that acc show ?thesis by (simp add: accumulating_def sorted_wrt_iff_nth_less)
  qed
  moreover have "d = combined_output ?s" if "written ?s = Some d" for d
  proof (cases "input world url_prompt")
    case (Inl e)
    with that show ?thesis by (simp add: main_def)
  next
    case (Inr url)
    show ?thesis
      using that written_try_block [of loads dumps world url]
      by (cases "fst (try_block loads dumps world url)")
         (simp_all add: main_after_prompt [OF Inr])
  qed
  ultimately show ?thesis using acc by (auto simp: accumulating_def)
qed

theorem combined_output_only_extended_witness:
  "history (snd (main json_loads json_dumps world_challenges_fail)) ! 1 =
     [(''company_info'', JObject [(''k'', JInt 1)])] \<and>
   history (snd (main json_loads json_dumps world_challenges_fail)) ! 5 =
     [(''company_info'', JObject [(''k'', JInt 1)]), (''pain_points'', JObject [(''k'', JInt 1)]),
      (''industry_challenges'', JObject [(''error'', JString ''Failed to parse'')]),
      (''selling_company'', JString ''Globex''), (''solutions'', JObject [(''k'', JInt 1)])] \<and>
   prefix (history (snd (main json_loads json_dumps world_challenges_fail)) ! 1)
          (history (snd (main json_loads json_dumps world_challenges_fail)) ! 5) \<and>
   last (history (snd (main json_loads json_dumps world_challenges_fail))) =
     combined_output (snd (main json_loads json_dumps world_challenges_fail)) \<and>
   written (snd (main json_loads json_dumps world_challenges_fail)) =
     Some (combined_output (snd (main json_loads json_dumps world_challenges_fail)))"
proof -
  have t: "truthy (Some (JObject [(''k'', JInt 1)]))" by simp
  have f: "\<not> truthy None" by simp
  note run = main_challenges_fail
          [OF world_challenges_fail_run(1) world_challenges_fail_run(2) sample_object_parsed t
              world_challenges_fail_run(3) sample_object_parsed t
              world_challenges_fail_run(4) refusal_parsed f world_challenges_fail_run(5)
              world_challenges_fail_run(6) sample_object_parsed t, of json_dumps]
  note T = combined_output_only_extended [of json_loads json_dumps world_challenges_fail]
  have len: "(1::nat) \<le> 5 \<and> 5 < length (history (snd (main json_loads json_dumps world_challenges_fail)))"
    by (simp add: run(3))
  have "prefix (history (snd (main json_loads json_dumps world_challenges_fail)) ! 1)
          (history (snd (main json_loads json_dumps world_challenges_fail)) ! 5)"
    using T [THEN conjunct2, THEN conjunct2, THEN conjunct1, rule_format, OF len] .
  moreover have "last (history (snd (main json_loads json_dumps world_challenges_fail))) =
     combined_output (snd (main json_loads json_dumps world_challenges_fail))"
    by (rule T [THEN conjunct2, THEN conjunct1])
  moreover have "written (snd (main json_loads json_dumps world_challenges_fail)) =
     Some (combined_output (snd (main json_loads json_dumps world_challenges_fail)))"
    using T [THEN conjunct2, THEN conjunct2, THEN conjunct2, rule_format, OF run(4)] run(4) by simp
  moreover have "history (snd (main json_loads json_dumps world_challenges_fail)) ! 1 =
     [(''company_info'', JObject [(''k'', JInt 1)])]"
    by (simp add: run(3))
  moreover have "history (snd (main json_loads json_dumps world_challenges_fail)) ! 5 =
     [(''company_info'', JObject [(''k'', JInt 1)]), (''pain_points'', JObject [(''k'', JInt 1)]),
      (''industry_challenges'', JObject [(''error'', JString ''Failed to parse'')]),
      (''selling_company'', JString ''Globex''), (''solutions'', JObject [(''k'', JInt 1)])]"
    by (simp add: run(3) placeholder_def)
  ultimately show ?thesis by (simp only: simp_thms)
qed

end
